theory Spec2Isabelle
  imports Main "HOL-Library.Sublist"
begin

section \<open>Shared primitives: the random source, dates, dictionaries\<close>

subsection \<open>Python's \<open>random\<close> module over an explicit source\<close>

text \<open>
  The generators draw from Python's global random generator. Here the generator is an
  explicit stream of raw draws: \<open>g 0\<close> is the next raw value and \<open>rng_next g\<close> the
  stream after it. Every theorem below holds for every stream, that is, for every
  outcome of the random generator.
\<close>

type_synonym rng = "nat \<Rightarrow> nat"

definition rng_next :: "rng \<Rightarrow> rng" where
  "rng_next g = (\<lambda>i. g (Suc i))"

datatype py_error = ValueError | IndexError | KeyError | AttributeError

text \<open>\<open>random.randrange(n)\<close>: a value in \<open>[0, n)\<close>; raises ValueError when \<open>n \<le> 0\<close>.\<close>

definition randrange :: "int \<Rightarrow> rng \<Rightarrow> py_error + (int \<times> rng)" where
  "randrange n g =
     (if n \<le> 0 then Inl ValueError
      else Inr (int (g 0) mod n, rng_next g))"

text \<open>
  \<open>random.randint(a, b)\<close>: a value in \<open>[a, b]\<close>. Python raises ValueError when
  \<open>b < a\<close>; every call site of the sources passes two literals with \<open>a \<le> b\<close>, so the
  model is the total function on that domain.
\<close>

definition randint :: "int \<Rightarrow> int \<Rightarrow> rng \<Rightarrow> int \<times> rng" where
  "randint a b g = (a + int (g 0) mod (b - a + 1), rng_next g)"

text \<open>\<open>random.choice(xs)\<close>: an element of \<open>xs\<close>; raises IndexError (here None) on \<open>[]\<close>.\<close>

definition choice :: "'a list \<Rightarrow> rng \<Rightarrow> ('a \<times> rng) option" where
  "choice xs g =
     (if xs = [] then None
      else Some (xs ! (g 0 mod length xs), rng_next g))"

subsection \<open>Dates\<close>

text \<open>
  A \<open>datetime\<close> is a number of microseconds on Python's proleptic time line, a
  \<open>timedelta(days=k)\<close> is \<open>k * day_us\<close>. A date string \<open>%Y-%m-%d\<close> is the number of
  its day: \<open>strftime\<close> drops the time of day, \<open>strptime\<close> gives midnight of the day.
\<close>

type_synonym datetime = int

definition day_us :: int where
  "day_us = 86400000000"

definition days :: "int \<Rightarrow> int" where
  "days k = k * day_us"

definition strftime :: "datetime \<Rightarrow> int" where
  "strftime t = t div day_us"

definition strptime :: "int \<Rightarrow> datetime" where
  "strptime d = d * day_us"

text \<open>
  The number of a day is its proleptic Gregorian ordinal, as \<open>date.toordinal\<close> gives
  it: day 1 is 1 January of year 1. The functions below are \<open>_is_leap\<close>,
  \<open>_days_before_year\<close>, \<open>_days_before_month\<close> and \<open>_ymd2ord\<close> of Python's
  \<open>datetime\<close> module; \<open>ymd2ord y m d\<close> is the day written \<open>y-m-d\<close> by
  \<open>strftime("%Y-%m-%d")\<close>.
\<close>

definition is_leap :: "int \<Rightarrow> bool" where
  "is_leap year = (year mod 4 = 0 \<and> (year mod 100 \<noteq> 0 \<or> year mod 400 = 0))"

definition days_before_year :: "int \<Rightarrow> int" where
  "days_before_year year = (let y = year - 1 in y * 365 + y div 4 - y div 100 + y div 400)"

definition DAYS_BEFORE_MONTH :: "int list" where
  "DAYS_BEFORE_MONTH = [0, 31, 59, 90, 120, 151, 181, 212, 243, 273, 304, 334]"

definition days_before_month :: "int \<Rightarrow> nat \<Rightarrow> int" where
  "days_before_month year month =
     DAYS_BEFORE_MONTH ! (month - 1) + (if month > 2 \<and> is_leap year then 1 else 0)"

definition ymd2ord :: "int \<Rightarrow> nat \<Rightarrow> int \<Rightarrow> int" where
  "ymd2ord year month day = days_before_year year + days_before_month year month + day"

text \<open>
  \<open>generate_random_date(start_date, end_date)\<close> of \<open>generate_sample_data.py\<close>:
  \<open>(end_date - start_date).days\<close> is the floor of the difference in days, and
  \<open>random.randrange\<close> raises ValueError when it is not positive.
\<close>

definition generate_random_date :: "datetime \<Rightarrow> datetime \<Rightarrow> rng \<Rightarrow> py_error + (datetime \<times> rng)" where
  "generate_random_date start_date end_date g =
     (let time_between_dates = end_date - start_date;
          days_between_dates = time_between_dates div day_us
      in case randrange days_between_dates g of
           Inl e \<Rightarrow> Inl e
         | Inr (random_number_of_days, g') \<Rightarrow> Inr (start_date + days random_number_of_days, g'))"

subsection \<open>Dictionaries of lists, in insertion order\<close>

text \<open>
  The grouping idiom \<open>if key not in d: d[key] = []; d[key].append(x)\<close>. A Python dict
  iterates in insertion order, so the dictionary is an association list.
\<close>

fun group_insert :: "'k \<Rightarrow> 'v \<Rightarrow> ('k \<times> 'v list) list \<Rightarrow> ('k \<times> 'v list) list" where
  "group_insert k v [] = [(k, [v])]"
| "group_insert k v ((k', vs) # rest) =
     (if k = k' then (k', vs @ [v]) # rest else (k', vs) # group_insert k v rest)"

definition group_by :: "('v \<Rightarrow> 'k) \<Rightarrow> 'v list \<Rightarrow> ('k \<times> 'v list) list" where
  "group_by key xs = foldl (\<lambda>d x. group_insert (key x) x d) [] xs"

text \<open>Python's substring test \<open>sub in s\<close> on strings.\<close>

fun str_in :: "string \<Rightarrow> string \<Rightarrow> bool" where
  "str_in sub [] = (sub = [])"
| "str_in sub (c # cs) = (prefix sub (c # cs) \<or> str_in sub cs)"

section \<open>Tumor/normal pairing: \<open>scripts/generate_gatk_analysis.py\<close>\<close>

text \<open>
  The value a sample of \<open>data/samples.json\<close> holds under the key \<open>diagnosis\<close>, as
  far as \<open>s.get("diagnosis", {}).get("diagnosisId")\<close> tells the cases apart: no such
  key (the default \<open>{}\<close> is used), a value that is not an object (\<open>null\<close>, a string,
  a list: it has no \<open>get\<close>, the expression raises AttributeError), or an object with
  the \<open>diagnosisId\<close> it holds (None when it has none).
\<close>

datatype diagnosis_value = NoDiagnosis | NotAnObject | DiagnosisObject "int option"

text \<open>
  A sample as loaded from \<open>data/samples.json\<close>. The script reads \<open>sampleId\<close> with
  \<open>[...]\<close> (required) and \<open>sampleType\<close> and \<open>diagnosis\<close> with \<open>.get\<close>.
\<close>

record sample =
  sampleId :: int
  sampleType :: "string option"
  diagnosis :: diagnosis_value

text \<open>\<open>s.get("diagnosis", {}).get("diagnosisId")\<close>, with the exception it can raise.\<close>

definition get_diagnosis_id :: "sample \<Rightarrow> py_error + int option" where
  "get_diagnosis_id s =
     (case diagnosis s of
        NoDiagnosis \<Rightarrow> Inr None
      | NotAnObject \<Rightarrow> Inl AttributeError
      | DiagnosisObject i \<Rightarrow> Inr i)"

text \<open>The diagnosis identifier of a sample, None where the sample gives none.\<close>

definition diagnosisId :: "sample \<Rightarrow> int option" where
  "diagnosisId s = (case diagnosis s of DiagnosisObject i \<Rightarrow> i | _ \<Rightarrow> None)"

text \<open>Python's \<open>not diagnosis_id\<close>: true for None and for 0.\<close>

definition falsy_id :: "int option \<Rightarrow> bool" where
  "falsy_id i = (case i of None \<Rightarrow> True | Some n \<Rightarrow> n = 0)"

text \<open>
  The comprehension \<open>normal_samples\<close> of \<open>find_normal_sample\<close>, evaluated sample
  by sample. The \<open>and\<close> reads the diagnosis of a sample only when its type is Normal,
  and the first such sample whose diagnosis is not an object ends the comprehension with
  AttributeError.
\<close>

fun normal_samples_of :: "sample list \<Rightarrow> int option \<Rightarrow> py_error + sample list" where
  "normal_samples_of [] diagnosis_id = Inr []"
| "normal_samples_of (s # rest) diagnosis_id =
     (if sampleType s = Some ''Normal'' then
        (case get_diagnosis_id s of
           Inl e \<Rightarrow> Inl e
         | Inr i \<Rightarrow>
             (case normal_samples_of rest diagnosis_id of
                Inl e \<Rightarrow> Inl e
              | Inr ns \<Rightarrow> Inr (if i = diagnosis_id then s # ns else ns)))
      else normal_samples_of rest diagnosis_id)"

text \<open>The list the comprehension gives when it does not raise.\<close>

definition normal_candidates :: "sample list \<Rightarrow> int option \<Rightarrow> sample list" where
  "normal_candidates samples diagnosis_id =
     filter (\<lambda>s. sampleType s = Some ''Normal'' \<and> diagnosisId s = diagnosis_id) samples"

definition find_normal_sample ::
  "sample list \<Rightarrow> sample \<Rightarrow> rng \<Rightarrow> py_error + (sample option \<times> rng)" where
  "find_normal_sample samples tumor_sample g =
     (case get_diagnosis_id tumor_sample of
        Inl e \<Rightarrow> Inl e
      | Inr diagnosis_id \<Rightarrow>
          (if falsy_id diagnosis_id then Inr (None, g)
           else
             (case normal_samples_of samples diagnosis_id of
                Inl e \<Rightarrow> Inl e
              | Inr normal_samples \<Rightarrow>
                  (if normal_samples \<noteq> [] then
                     (case choice normal_samples g of
                        Some (n, g') \<Rightarrow> Inr (Some n, g')
                      | None \<Rightarrow> Inr (None, g))
                   else Inr (None, g)))))"

definition PIPELINE_VERSIONS :: "string list" where
  "PIPELINE_VERSIONS = [''4.2.0.0'', ''4.1.9.0'', ''4.1.8.1'', ''4.1.7.0'']"

definition CALLING_METHODS :: "string list" where
  "CALLING_METHODS = [''Mutect2'', ''HaplotypeCaller'', ''Strelka2'', ''Varscan2'']"

record job_data =
  tumorSampleId :: int
  normalSampleId :: "int option"
  pipelineVersion :: string
  callingMethod :: string

text \<open>
  One submission of \<open>generate_gatk_jobs\<close>: the payload handed to \<open>call_api\<close>, with
  the tumor sample and the normal sample (if any) it was built from.
\<close>

record submission =
  tumor :: sample
  normal :: "sample option"
  payload :: job_data

definition is_tumor_type :: "sample \<Rightarrow> bool" where
  "is_tumor_type s = (sampleType s \<in> set [Some ''Tumor'', Some ''Metastasis'', Some ''Recurrence''])"

text \<open>
  The \<open>try\<close> block of one iteration up to the call of \<open>call_api\<close>: the submission
  it builds, or the exception that ends it before anything is sent. \<open>random.choice\<close>
  on the two non-empty constant lists cannot raise; the branch for None is never taken.
\<close>

definition gatk_job_for :: "sample list \<Rightarrow> sample \<Rightarrow> rng \<Rightarrow> py_error + (submission \<times> rng)" where
  "gatk_job_for samples tumor_sample g =
     (case find_normal_sample samples tumor_sample g of
        Inl e \<Rightarrow> Inl e
      | Inr (normal_sample, g1) \<Rightarrow>
          (let (pipeline_version, g2) =
                 (case choice PIPELINE_VERSIONS g1 of Some r \<Rightarrow> r | None \<Rightarrow> ([], g1));
               (calling_method, g3) =
                 (case choice CALLING_METHODS g2 of Some r \<Rightarrow> r | None \<Rightarrow> ([], g2));
               job = \<lparr>tumorSampleId = sampleId tumor_sample,
                      normalSampleId = (case normal_sample of
                                          Some n \<Rightarrow> Some (sampleId n)
                                        | None \<Rightarrow> None),
                      pipelineVersion = pipeline_version,
                      callingMethod = calling_method\<rparr>
           in Inr (\<lparr>tumor = tumor_sample, normal = normal_sample, payload = job\<rparr>, g3)))"

text \<open>
  The loop over \<open>tumor_samples\<close>, one entry for each iteration: the tumor sample
  with the submission of the iteration, or with the exception caught by its
  \<open>except Exception\<close> clause, which adds one to \<open>error_count\<close> and sends nothing.
  An iteration that raises has drawn nothing from the random generator.
\<close>

fun gatk_jobs_loop ::
  "sample list \<Rightarrow> sample list \<Rightarrow> rng \<Rightarrow> (sample \<times> (py_error + submission)) list" where
  "gatk_jobs_loop samples [] g = []"
| "gatk_jobs_loop samples (tumor_sample # rest) g =
     (case gatk_job_for samples tumor_sample g of
        Inl e \<Rightarrow> (tumor_sample, Inl e) # gatk_jobs_loop samples rest g
      | Inr (sub, g') \<Rightarrow> (tumor_sample, Inr sub) # gatk_jobs_loop samples rest g')"

definition gatk_attempts :: "sample list \<Rightarrow> rng \<Rightarrow> (sample \<times> (py_error + submission)) list" where
  "gatk_attempts samples g =
     (let tumor_samples = filter is_tumor_type samples
      in gatk_jobs_loop samples tumor_samples g)"

text \<open>
  \<open>generate_gatk_jobs\<close> of the staged script, as the list of its submissions in order.
  The answer of the service is only used after the payload was sent, so the submissions
  do not depend on the answers: the returned list \<open>gatk_jobs\<close> holds the answers of
  the submissions that succeeded.
\<close>

definition generate_gatk_jobs :: "sample list \<Rightarrow> rng \<Rightarrow> submission list" where
  "generate_gatk_jobs samples g =
     concat (map (\<lambda>(tumor_sample, r). case r of Inr sub \<Rightarrow> [sub] | Inl e \<Rightarrow> [])
                 (gatk_attempts samples g))"

section \<open>Tumor/normal pairing: \<open>generate_sample_data.py\<close>\<close>

text \<open>
  In the single-file generator a sample is the service's answer extended with the local
  \<open>sampleType\<close> and the parent \<open>diagnosis\<close>; all three keys are read with \<open>[...]\<close>.
\<close>

record m_sample =
  m_sampleId :: int
  m_sampleType :: string
  m_diagnosisId :: int

record m_job_data =
  m_tumorSampleId :: int
  m_normalSampleId :: int

record m_submission =
  m_tumor :: m_sample
  m_normal :: m_sample
  m_payload :: m_job_data

definition m_jobs_for_diagnosis :: "m_sample list \<Rightarrow> m_submission list" where
  "m_jobs_for_diagnosis diagnosis_samples =
     (let tumor_samples = filter (\<lambda>s. m_sampleType s = ''Tumor Tissue'') diagnosis_samples;
          normal_samples = filter (\<lambda>s. m_sampleType s = ''Blood'') diagnosis_samples
      in if tumor_samples \<noteq> [] \<and> normal_samples \<noteq> [] then
           (case normal_samples of
              normal_sample # _ \<Rightarrow>
                map (\<lambda>tumor_sample.
                       \<lparr>m_tumor = tumor_sample, m_normal = normal_sample,
                        m_payload = \<lparr>m_tumorSampleId = m_sampleId tumor_sample,
                                     m_normalSampleId = m_sampleId normal_sample\<rparr>\<rparr>)
                    tumor_samples
            | [] \<Rightarrow> [])
         else [])"

text \<open>
  \<open>generate_gatk_jobs\<close> of the single-file generator, as the list of its submissions.
  The draws for \<open>caller\<close> and \<open>filterSettings\<close> fill payload fields that no
  property below reads; they are left out.
\<close>

definition m_generate_gatk_jobs :: "m_sample list \<Rightarrow> m_submission list" where
  "m_generate_gatk_jobs samples =
     (let samples_by_diagnosis = group_by m_diagnosisId samples
      in concat (map (\<lambda>(diagnosis_id, diagnosis_samples). m_jobs_for_diagnosis diagnosis_samples)
                     samples_by_diagnosis))"


section \<open>Samples: \<open>generate_sample_data.py\<close>\<close>

text \<open>
  A diagnosis as the single-file generator holds it: the service's answer with the
  local \<open>cancerType\<close> dictionary attached. \<open>diagnosisDate\<close> is a \<open>%Y-%m-%d\<close>
  string, here the number of its day; \<open>d_cancerType\<close> is \<open>cancerType["name"]\<close>.
\<close>

record diagnosis =
  d_diagnosisId :: int
  d_patientId :: int
  d_diagnosisDate :: int
  d_cancerType :: string

definition SAMPLE_TYPES :: "string list" where
  "SAMPLE_TYPES = [''Tumor Tissue'', ''Blood'', ''Bone Marrow'', ''Pleural Fluid'',
                   ''Cerebrospinal Fluid'']"

text \<open>
  The payload \<open>sample_data\<close>. \<open>tumorPurity\<close> is a float rounded to two decimals,
  held here in hundredths: \<open>round(random.uniform(a, b), 2)\<close> is a draw among the
  hundredths from \<open>a\<close> to \<open>b\<close>, both ends included (\<open>uniform_round2\<close>).
  \<open>sampleQualityScore\<close> and \<open>storageLocation\<close> are independent draws that no
  property below reads; they are left out.
\<close>

record sample_data =
  sd_sampleType :: string
  sd_collectionDate :: int
  sd_tumorPurity :: int

definition uniform_round2 :: "int \<Rightarrow> int \<Rightarrow> rng \<Rightarrow> int \<times> rng" where
  "uniform_round2 a b g = randint a b g"

text \<open>The choice of type and purity for the sample with index \<open>i\<close>.\<close>

definition sample_type_purity :: "nat \<Rightarrow> rng \<Rightarrow> (string \<times> int) \<times> rng" where
  "sample_type_purity i g =
     (if i = 0 then
        (let (tumor_purity, g1) = uniform_round2 50 95 g
         in ((''Tumor Tissue'', tumor_purity), g1))
      else if i = 1 then ((''Blood'', 0), g)
      else
        (case choice SAMPLE_TYPES g of
           Some (sample_type, g1) \<Rightarrow>
             (if sample_type \<noteq> ''Blood'' then
                (let (tumor_purity, g2) = uniform_round2 0 95 g1
                 in ((sample_type, tumor_purity), g2))
              else ((sample_type, 0), g1))
         | None \<Rightarrow> (([], 0), g)))"

definition sample_payload :: "diagnosis \<Rightarrow> datetime \<Rightarrow> nat \<Rightarrow> rng \<Rightarrow> py_error + (sample_data \<times> rng)" where
  "sample_payload diag now i g =
     (let ((sample_type, tumor_purity), g1) = sample_type_purity i g;
          diagnosis_date = strptime (d_diagnosisDate diag)
      in case generate_random_date diagnosis_date now g1 of
           Inl e \<Rightarrow> Inl e
         | Inr (collection_date, g2) \<Rightarrow>
             Inr (\<lparr>sd_sampleType = sample_type,
                   sd_collectionDate = strftime collection_date,
                   sd_tumorPurity = tumor_purity\<rparr>, g2))"

text \<open>\<open>for i in range(num_samples)\<close>, from index \<open>i\<close> with \<open>n\<close> rounds to go.\<close>

fun samples_loop :: "diagnosis \<Rightarrow> datetime \<Rightarrow> nat \<Rightarrow> nat \<Rightarrow> rng \<Rightarrow> py_error + (sample_data list \<times> rng)" where
  "samples_loop diag now i 0 g = Inr ([], g)"
| "samples_loop diag now i (Suc n) g =
     (case sample_payload diag now i g of
        Inl e \<Rightarrow> Inl e
      | Inr (p, g1) \<Rightarrow>
          (case samples_loop diag now (Suc i) n g1 of
             Inl e \<Rightarrow> Inl e
           | Inr (ps, g2) \<Rightarrow> Inr (p # ps, g2)))"

text \<open>The body of \<open>for diagnosis in diagnoses\<close>: the payloads submitted for one diagnosis.\<close>

definition samples_for_diagnosis :: "diagnosis \<Rightarrow> datetime \<Rightarrow> rng \<Rightarrow> py_error + (sample_data list \<times> rng)" where
  "samples_for_diagnosis diag now g =
     (let (num_samples, g1) = randint 1 3 g
      in samples_loop diag now 0 (nat num_samples) g1)"

text \<open>
  \<open>generate_samples\<close> of the single-file generator, as the list of its submissions:
  each payload with the diagnosis it is posted under. An exception of
  \<open>generate_random_date\<close> is not caught and ends the run. The answers of the service
  decide which samples are kept, not which payloads are sent.
\<close>

fun m_generate_samples :: "diagnosis list \<Rightarrow> datetime \<Rightarrow> rng \<Rightarrow> py_error + ((diagnosis \<times> sample_data) list \<times> rng)" where
  "m_generate_samples [] now g = Inr ([], g)"
| "m_generate_samples (diag # rest) now g =
     (case samples_for_diagnosis diag now g of
        Inl e \<Rightarrow> Inl e
      | Inr (ps, g1) \<Rightarrow>
          (case m_generate_samples rest now g1 of
             Inl e \<Rightarrow> Inl e
           | Inr (qs, g2) \<Rightarrow> Inr (map (\<lambda>p. (diag, p)) ps @ qs, g2)))"

section \<open>Samples: \<open>scripts/generate_samples.py\<close>\<close>










section \<open>Therapy recommendations: \<open>generate_sample_data.py\<close>\<close>

record drug =
  dr_name :: string
  dr_dosage :: string
  dr_gene :: string

text \<open>
  The table \<open>CANCER_TYPES\<close>, each cancer type with its \<open>common_mutations\<close> (the
  \<open>histologies\<close> are left out). \<open>generate_diagnoses\<close> attaches one of these entries
  to every diagnosis, and \<open>generate_variants\<close> draws every gene symbol from the
  \<open>common_mutations\<close> of the diagnosis.
\<close>

definition CANCER_TYPES :: "(string \<times> string list) list" where
  "CANCER_TYPES =
    [(''Non-Small Cell Lung Cancer'',
       [''EGFR'', ''ALK'', ''ROS1'', ''KRAS'', ''BRAF'', ''MET'', ''RET'', ''NTRK'']),
     (''Breast Cancer'',
       [''BRCA1'', ''BRCA2'', ''PIK3CA'', ''TP53'', ''PTEN'', ''CDH1'', ''PALB2'']),
     (''Colorectal Cancer'',
       [''APC'', ''KRAS'', ''BRAF'', ''PIK3CA'', ''TP53'', ''SMAD4'', ''PTEN'']),
     (''Melanoma'', [''BRAF'', ''NRAS'', ''NF1'', ''KIT'', ''PTEN'', ''CDKN2A'']),
     (''Ovarian Cancer'',
       [''BRCA1'', ''BRCA2'', ''TP53'', ''PTEN'', ''PIK3CA'', ''ARID1A''])]"

text \<open>
  The table \<open>DRUGS\<close>. The two bytes after \<open>500mg/m\<close> are the UTF-8 encoding of the
  superscript two of the source.
\<close>

definition DRUGS :: "(string \<times> drug list) list" where
  "DRUGS =
    [(''Non-Small Cell Lung Cancer'',
       [\<lparr>dr_name = ''Osimertinib'', dr_dosage = ''80mg daily'', dr_gene = ''EGFR''\<rparr>,
        \<lparr>dr_name = ''Alectinib'', dr_dosage = ''600mg twice daily'', dr_gene = ''ALK''\<rparr>,
        \<lparr>dr_name = ''Entrectinib'', dr_dosage = ''600mg daily'', dr_gene = ''ROS1''\<rparr>,
        \<lparr>dr_name = ''Sotorasib'', dr_dosage = ''960mg daily'', dr_gene = ''KRAS''\<rparr>,
        \<lparr>dr_name = ''Dabrafenib + Trametinib'', dr_dosage = ''150mg twice daily + 2mg daily'',
         dr_gene = ''BRAF''\<rparr>]),
     (''Breast Cancer'',
       [\<lparr>dr_name = ''Olaparib'', dr_dosage = ''300mg twice daily'', dr_gene = ''BRCA1/2''\<rparr>,
        \<lparr>dr_name = ''Alpelisib + Fulvestrant'', dr_dosage = ''300mg daily + 500mg monthly'',
         dr_gene = ''PIK3CA''\<rparr>,
        \<lparr>dr_name = ''Trastuzumab'', dr_dosage = ''6mg/kg every 3 weeks'', dr_gene = ''HER2''\<rparr>,
        \<lparr>dr_name = ''Ribociclib + Letrozole'', dr_dosage = ''600mg daily + 2.5mg daily'',
         dr_gene = ''ESR1''\<rparr>]),
     (''Colorectal Cancer'',
       [\<lparr>dr_name = ''Cetuximab'',
         dr_dosage = ''500mg/m'' @ [CHR 0xC2, CHR 0xB2] @ '' every 2 weeks'',
         dr_gene = ''KRAS-wildtype''\<rparr>,
        \<lparr>dr_name = ''Encorafenib + Cetuximab'',
         dr_dosage = ''300mg daily + 500mg/m'' @ [CHR 0xC2, CHR 0xB2] @ '' every 2 weeks'',
         dr_gene = ''BRAF''\<rparr>,
        \<lparr>dr_name = ''Pembrolizumab'', dr_dosage = ''200mg every 3 weeks'',
         dr_gene = ''MSI-H/dMMR''\<rparr>]),
     (''Melanoma'',
       [\<lparr>dr_name = ''Dabrafenib + Trametinib'', dr_dosage = ''150mg twice daily + 2mg daily'',
         dr_gene = ''BRAF''\<rparr>,
        \<lparr>dr_name = ''Pembrolizumab'', dr_dosage = ''200mg every 3 weeks'', dr_gene = ''PD-L1''\<rparr>,
        \<lparr>dr_name = ''Nivolumab + Ipilimumab'', dr_dosage = ''3mg/kg + 1mg/kg every 3 weeks'',
         dr_gene = ''PD-L1/CTLA-4''\<rparr>]),
     (''Ovarian Cancer'',
       [\<lparr>dr_name = ''Olaparib'', dr_dosage = ''300mg twice daily'', dr_gene = ''BRCA1/2''\<rparr>,
        \<lparr>dr_name = ''Niraparib'', dr_dosage = ''200-300mg daily'', dr_gene = ''HRD-positive''\<rparr>,
        \<lparr>dr_name = ''Bevacizumab'', dr_dosage = ''15mg/kg every 3 weeks'', dr_gene = ''VEGF''\<rparr>])]"

text \<open>\<open>DRUGS.get(cancer_type, [])\<close>.\<close>

definition drugs_get :: "string \<Rightarrow> drug list" where
  "drugs_get cancer_type = (case map_of DRUGS cancer_type of Some ds \<Rightarrow> ds | None \<Rightarrow> [])"

definition EVIDENCE_LEVELS :: "string list" where
  "EVIDENCE_LEVELS = [''Level 1A'', ''Level 1B'', ''Level 2A'', ''Level 2B'', ''Level 3A'',
                      ''Level 3B'', ''Level 4'']"

text \<open>
  A variant as \<open>generate_variants\<close> keeps it: the service's answer with the parent
  \<open>diagnosis\<close> attached. \<open>variantId\<close> is read with \<open>.get("variantId", 1)\<close>.
\<close>

record variant =
  v_variantId :: "int option"
  v_geneSymbol :: string
  v_diagnosis :: diagnosis

definition variant_id :: "variant \<Rightarrow> int" where
  "variant_id v = (case v_variantId v of Some i \<Rightarrow> i | None \<Rightarrow> 1)"

text \<open>The payload \<open>recommendation_data\<close>; the free-text \<open>notes\<close> are left out.\<close>

record recommendation_data =
  r_patientId :: int
  r_diagnosisId :: int
  r_drugName :: string
  r_dosage :: string
  r_recommendationDate :: int
  r_evidenceLevel :: string
  r_variantIds :: "int list"

text \<open>
  One submission of \<open>generate_therapy_recommendations\<close>: the payload, with the loop
  variable \<open>drug\<close> it was built from, the variants selected by the comprehension of
  \<open>variantIds\<close>, and whether \<open>matching_drugs\<close> came from the random pick.
\<close>

record therapy_submission =
  t_drug :: drug
  t_linked :: "variant list"
  t_fallback :: bool
  t_payload :: recommendation_data

text \<open>The nested loops that fill \<open>matching_drugs\<close>.\<close>

definition matching_drugs_for :: "variant list \<Rightarrow> drug list \<Rightarrow> drug list" where
  "matching_drugs_for patient_variants potential_drugs =
     concat (map (\<lambda>variant.
                    filter (\<lambda>drug. str_in (v_geneSymbol variant) (dr_gene drug)) potential_drugs)
                 patient_variants)"

text \<open>\<open>for drug in matching_drugs\<close>.\<close>

fun recommend_drugs ::
  "int \<Rightarrow> int \<Rightarrow> diagnosis \<Rightarrow> variant list \<Rightarrow> bool \<Rightarrow> datetime \<Rightarrow> drug list \<Rightarrow> rng \<Rightarrow>
   py_error + (therapy_submission list \<times> rng)" where
  "recommend_drugs patient_id diagnosis_id diag patient_variants fb now [] g = Inr ([], g)"
| "recommend_drugs patient_id diagnosis_id diag patient_variants fb now (drug # rest) g =
     (case generate_random_date (strptime (d_diagnosisDate diag)) now g of
        Inl e \<Rightarrow> Inl e
      | Inr (recommendation_date, g1) \<Rightarrow>
          (case choice EVIDENCE_LEVELS g1 of
             None \<Rightarrow> Inl IndexError
           | Some (evidence_level, g2) \<Rightarrow>
               (let linked = filter (\<lambda>v. str_in (v_geneSymbol v) (dr_gene drug)) patient_variants;
                    recommendation =
                      \<lparr>r_patientId = patient_id, r_diagnosisId = diagnosis_id,
                       r_drugName = dr_name drug, r_dosage = dr_dosage drug,
                       r_recommendationDate = strftime recommendation_date,
                       r_evidenceLevel = evidence_level,
                       r_variantIds = map variant_id linked\<rparr>;
                    item = \<lparr>t_drug = drug, t_linked = linked, t_fallback = fb,
                            t_payload = recommendation\<rparr>
                in case recommend_drugs patient_id diagnosis_id diag patient_variants fb now rest g2 of
                     Inl e \<Rightarrow> Inl e
                   | Inr (items, g3) \<Rightarrow> Inr (item # items, g3))))"

text \<open>
  The body of the loop over \<open>variants_by_patient_diagnosis\<close>. The key
  \<open>f"{patient_id}_{diagnosis_id}"\<close> is split and read back with \<open>int\<close>; for integer
  identifiers that is the pair itself. \<open>continue\<close> gives no submission.
\<close>

definition recommend_group ::
  "diagnosis list \<Rightarrow> datetime \<Rightarrow> (int \<times> int) \<times> variant list \<Rightarrow> rng \<Rightarrow>
   py_error + (therapy_submission list \<times> rng)" where
  "recommend_group diagnoses now entry g =
     (let (patient_id, diagnosis_id) = fst entry;
          patient_variants = snd entry
      in case find (\<lambda>d. d_diagnosisId d = diagnosis_id) diagnoses of
           None \<Rightarrow> Inr ([], g)
         | Some diag \<Rightarrow>
             (let cancer_type = d_cancerType diag;
                  potential_drugs = drugs_get cancer_type
              in if potential_drugs = [] then Inr ([], g)
                 else
                   (let matching_drugs = matching_drugs_for patient_variants potential_drugs
                    in if matching_drugs = [] \<and> potential_drugs \<noteq> [] then
                         (case choice potential_drugs g of
                            None \<Rightarrow> Inl IndexError
                          | Some (drug, g1) \<Rightarrow>
                              recommend_drugs patient_id diagnosis_id diag patient_variants
                                True now [drug] g1)
                       else
                         recommend_drugs patient_id diagnosis_id diag patient_variants
                           False now matching_drugs g)))"

fun recommend_groups ::
  "diagnosis list \<Rightarrow> datetime \<Rightarrow> ((int \<times> int) \<times> variant list) list \<Rightarrow> rng \<Rightarrow>
   py_error + (therapy_submission list \<times> rng)" where
  "recommend_groups diagnoses now [] g = Inr ([], g)"
| "recommend_groups diagnoses now (entry # rest) g =
     (case recommend_group diagnoses now entry g of
        Inl e \<Rightarrow> Inl e
      | Inr (items, g1) \<Rightarrow>
          (case recommend_groups diagnoses now rest g1 of
             Inl e \<Rightarrow> Inl e
           | Inr (others, g2) \<Rightarrow> Inr (items @ others, g2)))"

text \<open>
  \<open>generate_therapy_recommendations\<close>, as the list of its submissions. The parameter
  \<open>patients\<close> of the source is never read. An exception of \<open>generate_random_date\<close>
  is not caught and ends the run.
\<close>

definition variant_key :: "variant \<Rightarrow> int \<times> int" where
  "variant_key v = (d_patientId (v_diagnosis v), d_diagnosisId (v_diagnosis v))"

definition generate_therapy_recommendations ::
  "diagnosis list \<Rightarrow> variant list \<Rightarrow> datetime \<Rightarrow> rng \<Rightarrow> py_error + (therapy_submission list \<times> rng)" where
  "generate_therapy_recommendations diagnoses variants now g =
     (let variants_by_patient_diagnosis = group_by variant_key variants
      in recommend_groups diagnoses now variants_by_patient_diagnosis g)"

text \<open>The patient and diagnosis a recommendation payload is posted for.\<close>

definition item_key :: "therapy_submission \<Rightarrow> int \<times> int" where
  "item_key it = (r_patientId (t_payload it), r_diagnosisId (t_payload it))"

section \<open>Follow-up records: \<open>generate_sample_data.py\<close>\<close>

text \<open>
  A recommendation as \<open>generate_followups\<close> reads it: the local \<open>patient_id\<close> and
  the \<open>recommendationDate\<close> string of the service's answer, here the number of its day.
\<close>

record recommendation =
  rc_patient_id :: int
  rc_recommendationDate :: int

text \<open>
  The payload \<open>followup_data\<close>. \<open>imagingResults\<close>, \<open>adverseEvents\<close> and \<open>notes\<close>
  are texts built from further independent draws; they are left out.
\<close>

record followup_data =
  f_patientId :: int
  f_followUpDate :: int
  f_clinicalStatus :: string
  f_nextFollowUpDate :: int

text \<open>
  The loop that fills \<open>followup_dates\<close>: at most \<open>n\<close> rounds, stopped by \<open>break\<close>
  as soon as \<open>current_date\<close> is not before \<open>datetime.now()\<close>.
\<close>

fun followup_dates_loop :: "nat \<Rightarrow> datetime \<Rightarrow> datetime \<Rightarrow> rng \<Rightarrow> datetime list \<times> rng" where
  "followup_dates_loop 0 current_date now g = ([], g)"
| "followup_dates_loop (Suc n) current_date now g =
     (if current_date < now then
        (let (gap, g1) = randint 60 120 g;
             (dates, g2) = followup_dates_loop n (current_date + days gap) now g1
         in (current_date # dates, g2))
      else ([], g))"

text \<open>The choice of \<open>status\<close> for the record with index \<open>i\<close> among \<open>len\<close> records.\<close>

definition followup_status :: "nat \<Rightarrow> nat \<Rightarrow> rng \<Rightarrow> string \<times> rng" where
  "followup_status i len g =
     (case (if i = 0 then choice [''Partial Response'', ''Stable Disease''] g
            else if i = len - 1 then
              choice [''Partial Response'', ''Stable Disease'', ''Progressive Disease''] g
            else choice [''Partial Response'', ''Complete Response'', ''Stable Disease''] g) of
        Some r \<Rightarrow> r
      | None \<Rightarrow> ([], g))"

text \<open>\<open>for i, followup_date in enumerate(followup_dates)\<close>, from index \<open>i\<close>.\<close>

fun followup_records :: "int \<Rightarrow> nat \<Rightarrow> nat \<Rightarrow> datetime list \<Rightarrow> rng \<Rightarrow> followup_data list \<times> rng" where
  "followup_records patient_id len i [] g = ([], g)"
| "followup_records patient_id len i (followup_date # rest) g =
     (let (status, g1) = followup_status i len g;
          (gap, g2) = randint 60 120 g1;
          next_followup_date = followup_date + days gap;
          followup = \<lparr>f_patientId = patient_id,
                      f_followUpDate = strftime followup_date,
                      f_clinicalStatus = status,
                      f_nextFollowUpDate = strftime next_followup_date\<rparr>;
          (others, g3) = followup_records patient_id len (Suc i) rest g2
      in (followup # others, g3))"

text \<open>
  The body of the loop over \<open>recommendations_by_patient\<close>: the payloads submitted for
  one patient. \<open>sorted_recommendations[0]\<close> raises IndexError on an empty list; the
  groups built by the grouping loop are never empty.
\<close>

definition followups_for_patient ::
  "int \<Rightarrow> recommendation list \<Rightarrow> datetime \<Rightarrow> rng \<Rightarrow> py_error + (followup_data list \<times> rng)" where
  "followups_for_patient patient_id patient_recommendations now g =
     (let (num_followups, g1) = randint 1 3 g;
          sorted_recommendations = sort_key rc_recommendationDate patient_recommendations
      in case sorted_recommendations of
           [] \<Rightarrow> Inl IndexError
         | first # _ \<Rightarrow>
             (let earliest_rec_date = strptime (rc_recommendationDate first);
                  (offset, g2) = randint 30 60 g1;
                  current_date = earliest_rec_date + days offset;
                  (followup_dates, g3) = followup_dates_loop (nat num_followups) current_date now g2
              in Inr (followup_records patient_id (length followup_dates) 0 followup_dates g3)))"

fun followups_loop ::
  "(int \<times> recommendation list) list \<Rightarrow> datetime \<Rightarrow> rng \<Rightarrow> py_error + (followup_data list \<times> rng)" where
  "followups_loop [] now g = Inr ([], g)"
| "followups_loop ((patient_id, patient_recommendations) # rest) now g =
     (case followups_for_patient patient_id patient_recommendations now g of
        Inl e \<Rightarrow> Inl e
      | Inr (records, g1) \<Rightarrow>
          (case followups_loop rest now g1 of
             Inl e \<Rightarrow> Inl e
           | Inr (others, g2) \<Rightarrow> Inr (records @ others, g2)))"

text \<open>
  \<open>generate_followups\<close>, as the list of its submissions. The parameter \<open>patients\<close>
  of the source is never read.
\<close>

definition generate_followups :: "recommendation list \<Rightarrow> datetime \<Rightarrow> rng \<Rightarrow> py_error + (followup_data list \<times> rng)" where
  "generate_followups recommendations now g =
     (let recommendations_by_patient = group_by rc_patient_id recommendations
      in followups_loop recommendations_by_patient now g)"

section \<open>The service: \<open>call_api\<close> and the readiness probe\<close>

text \<open>
  A parsed JSON body. \<open>JNull\<close> is Python's None, which is also what \<open>call_api\<close>
  returns for a failure. Numbers are integers here; no property below reads a number.
\<close>

datatype json =
    JNull
  | JBool bool
  | JNum int
  | JStr string
  | JArr "json list"
  | JObj "(string \<times> json) list"

text \<open>Python's truth value of a parsed body, as tested by \<open>if response:\<close>.\<close>

fun truthy :: "json \<Rightarrow> bool" where
  "truthy JNull = False"
| "truthy (JBool b) = b"
| "truthy (JNum n) = (n \<noteq> 0)"
| "truthy (JStr s) = (s \<noteq> [])"
| "truthy (JArr xs) = (xs \<noteq> [])"
| "truthy (JObj kvs) = (kvs \<noteq> [])"

text \<open>
  The outcome of one HTTP request: a response with its status code and its body
  (None when the body is not JSON), or an exception of \<open>requests\<close> (connection
  error, timeout). The service is a stream of outcomes: \<open>net 0\<close> answers the next
  request, whatever it asks, and \<open>net_next net\<close> is the service after that request.
  Every theorem below holds for every stream.
\<close>

datatype http_outcome = Response nat "json option" | RequestFailed

type_synonym net = "nat \<Rightarrow> http_outcome"

definition net_next :: "net \<Rightarrow> net" where
  "net_next net = (\<lambda>i. net (Suc i))"

definition bare_success :: json where
  "bare_success = JObj [(''success'', JBool True)]"

text \<open>
  \<open>call_api\<close> of the staged scripts (the same text in each of them). The URL, the
  payload and \<open>use_params\<close> choose what is sent, not how the answer is classified;
  only \<open>method\<close> is kept. An unsupported method returns None without a request.
\<close>

definition call_api :: "string \<Rightarrow> net \<Rightarrow> json \<times> net" where
  "call_api method net =
     (if method \<in> set [''GET'', ''POST'', ''PUT'', ''DELETE''] then
        (case net 0 of
           Response status_code body \<Rightarrow>
             (if 200 \<le> status_code \<and> status_code < 300 then
                (case body of
                   Some parsed \<Rightarrow> (parsed, net_next net)
                 | None \<Rightarrow> (bare_success, net_next net))
              else (JNull, net_next net))
         | RequestFailed \<Rightarrow> (JNull, net_next net))
      else (JNull, net))"

text \<open>Python's \<open>str.upper\<close> on ASCII letters.\<close>

definition upper_char :: "char \<Rightarrow> char" where
  "upper_char c =
     (let n = (of_char c :: nat) in if 97 \<le> n \<and> n \<le> 122 then char_of (n - 32) else c)"

definition upper :: "string \<Rightarrow> string" where
  "upper s = map upper_char s"

text \<open>
  \<open>call_api\<close> of \<open>generate_sample_data.py\<close>. \<open>raise_for_status\<close> raises for a
  status from 400 to 599; the handler catches \<open>RequestException\<close> only. A body that
  is not JSON makes \<open>response.json()\<close> raise: with \<open>requests\<close> 2.27 or later the
  exception is a \<open>RequestException\<close> and is caught, before that it is a plain
  ValueError and leaves the function. The flag \<open>json_error_caught\<close> says which.
\<close>

definition m_call_api :: "bool \<Rightarrow> string \<Rightarrow> net \<Rightarrow> (py_error + json) \<times> net" where
  "m_call_api json_error_caught method net =
     (if upper method \<in> set [''GET'', ''POST'', ''PUT'', ''DELETE''] then
        (case net 0 of
           Response status_code body \<Rightarrow>
             (if 400 \<le> status_code \<and> status_code < 600 then (Inr JNull, net_next net)
              else if status_code = 204 then (Inr JNull, net_next net)
              else
                (case body of
                   Some response_data \<Rightarrow> (Inr response_data, net_next net)
                 | None \<Rightarrow>
                     (if json_error_caught then (Inr JNull, net_next net)
                      else (Inl ValueError, net_next net))))
         | RequestFailed \<Rightarrow> (Inr JNull, net_next net))
      else (Inr JNull, net))"

text \<open>
  \<open>wait_for_application\<close>: at most \<open>max_retries\<close> probes of the health endpoint,
  true at the first answer with status 200. An exception of the probe is swallowed. The
  sleep between two probes is not modelled.
\<close>

fun wait_probe :: "nat \<Rightarrow> net \<Rightarrow> bool \<times> net" where
  "wait_probe 0 net = (False, net)"
| "wait_probe (Suc retries_left) net =
     (case net 0 of
        Response status_code body \<Rightarrow>
          (if status_code = 200 then (True, net_next net)
           else wait_probe retries_left (net_next net))
      | RequestFailed \<Rightarrow> wait_probe retries_left (net_next net))"

text \<open>The staged scripts probe 10 times, the single-file generator 30 times.\<close>

definition wait_for_application :: "net \<Rightarrow> bool \<times> net" where
  "wait_for_application net = wait_probe 10 net"

definition m_wait_for_application :: "net \<Rightarrow> bool \<times> net" where
  "m_wait_for_application net = wait_probe 30 net"

section \<open>Patients\<close>

text \<open>
  The payload \<open>patient_data\<close>, in both generators. The names, the contact data and
  the record number come from \<open>Faker\<close> and from independent draws; they are left out.
\<close>

record patient_data =
  p_gender :: string
  p_dateOfBirth :: int

text \<open>The state of the loop of \<open>generate_patients\<close>, with the payloads sent so far.\<close>

record patients_state =
  ps_patients :: "json list"
  ps_error_count :: nat
  ps_submitted :: "patient_data list"

definition choose_gender :: "rng \<Rightarrow> string \<times> rng" where
  "choose_gender g = (case choice [''Male'', ''Female''] g of Some r \<Rightarrow> r | None \<Rightarrow> ([], g))"

text \<open>
  \<open>generate_patients\<close> of \<open>scripts/generate_patients.py\<close>, with \<open>n\<close> rounds to go.
  The date of birth is \<open>now - timedelta(days=365 * random.randint(30, 80))\<close>. A
  truthy answer is appended; the message printed next calls \<open>response.get\<close>, which
  only a JSON object has, so for any other truthy answer the \<open>except\<close> clause of the
  round counts an error as well. A falsy answer is counted as an error.
\<close>

definition has_get :: "json \<Rightarrow> bool" where
  "has_get response = (case response of JObj kvs \<Rightarrow> True | _ \<Rightarrow> False)"

text \<open>
  The answers to \<open>n\<close> consecutive POST requests, as \<open>call_api\<close> returns them.
\<close>

fun answers :: "nat \<Rightarrow> net \<Rightarrow> json list" where
  "answers 0 net = []"
| "answers (Suc n) net = fst (call_api ''POST'' net) # answers n (net_next net)"


fun generate_patients_loop ::
  "nat \<Rightarrow> datetime \<Rightarrow> patients_state \<Rightarrow> rng \<Rightarrow> net \<Rightarrow> patients_state \<times> rng \<times> net" where
  "generate_patients_loop 0 now st g net = (st, g, net)"
| "generate_patients_loop (Suc n) now st g net =
     (let (gender, g1) = choose_gender g;
          (years, g2) = randint 30 80 g1;
          patient = \<lparr>p_gender = gender, p_dateOfBirth = strftime (now - days (365 * years))\<rparr>;
          (response, net1) = call_api ''POST'' net;
          st0 = st\<lparr>ps_submitted := ps_submitted st @ [patient]\<rparr>;
          st1 = (if truthy response then
                   (if has_get response
                    then st0\<lparr>ps_patients := ps_patients st0 @ [response]\<rparr>
                    else st0\<lparr>ps_patients := ps_patients st0 @ [response],
                             ps_error_count := ps_error_count st0 + 1\<rparr>)
                 else st0\<lparr>ps_error_count := ps_error_count st0 + 1\<rparr>)
      in generate_patients_loop n now st1 g2 net1)"

definition generate_patients :: "nat \<Rightarrow> datetime \<Rightarrow> rng \<Rightarrow> net \<Rightarrow> patients_state \<times> rng \<times> net" where
  "generate_patients count now g net =
     generate_patients_loop count now
       \<lparr>ps_patients = [], ps_error_count = 0, ps_submitted = []\<rparr> g net"

text \<open>
  \<open>main\<close> of \<open>scripts/generate_patients.py\<close>: the exit code, the payloads sent and
  the content written to \<open>data/patients.json\<close> (None when nothing is written).
\<close>

record run_result =
  exit_code :: int
  submitted :: "patient_data list"
  patients_file :: "json list option"

definition main :: "nat \<Rightarrow> datetime \<Rightarrow> rng \<Rightarrow> net \<Rightarrow> run_result \<times> net" where
  "main count now g net =
     (case wait_for_application net of
        (False, net1) \<Rightarrow> (\<lparr>exit_code = 1, submitted = [], patients_file = None\<rparr>, net1)
      | (True, net1) \<Rightarrow>
          (let (st, g1, net2) = generate_patients count now g net1
           in (\<lparr>exit_code = 0, submitted = ps_submitted st,
                patients_file = Some (ps_patients st)\<rparr>, net2)))"

text \<open>
  \<open>generate_patients\<close> of \<open>generate_sample_data.py\<close>, with \<open>n\<close> rounds to go. A
  falsy answer is skipped; this generator keeps no error count. The state holds the
  answers kept and the payloads sent.
\<close>

fun m_generate_patients_loop ::
  "bool \<Rightarrow> nat \<Rightarrow> datetime \<Rightarrow> json list \<times> patient_data list \<Rightarrow> rng \<Rightarrow> net \<Rightarrow>
   py_error + ((json list \<times> patient_data list) \<times> rng \<times> net)" where
  "m_generate_patients_loop jc 0 now st g net = Inr (st, g, net)"
| "m_generate_patients_loop jc (Suc n) now st g net =
     (let (gender, g1) = choose_gender g;
          start_date = now - days (80 * 365);
          end_date = now - days (30 * 365)
      in case generate_random_date start_date end_date g1 of
           Inl e \<Rightarrow> Inl e
         | Inr (dob, g2) \<Rightarrow>
             (let patient = \<lparr>p_gender = gender, p_dateOfBirth = strftime dob\<rparr>
              in case m_call_api jc ''POST'' net of
                   (Inl e, net1) \<Rightarrow> Inl e
                 | (Inr response, net1) \<Rightarrow>
                     (let st1 = (if truthy response
                                 then (fst st @ [response], snd st @ [patient])
                                 else (fst st, snd st @ [patient]))
                      in m_generate_patients_loop jc n now st1 g2 net1)))"

definition m_generate_patients ::
  "bool \<Rightarrow> nat \<Rightarrow> datetime \<Rightarrow> rng \<Rightarrow> net \<Rightarrow>
   py_error + ((json list \<times> patient_data list) \<times> rng \<times> net)" where
  "m_generate_patients jc count now g net = m_generate_patients_loop jc count now ([], []) g net"

text \<open>
  \<open>main\<close> of \<open>generate_sample_data.py\<close>. The nine generator calls after the
  readiness check are the parameter \<open>stages\<close>, run on the service as the probe left
  it; None is the early \<open>return\<close>, before any of them.
\<close>

definition m_main :: "(net \<Rightarrow> 'r) \<Rightarrow> net \<Rightarrow> 'r option \<times> net" where
  "m_main stages net =
     (case m_wait_for_application net of
        (False, net1) \<Rightarrow> (None, net1)
      | (True, net1) \<Rightarrow> (Some (stages net1), net1))"

text \<open>
  The answers to \<open>n\<close> consecutive POST requests, as \<open>m_call_api\<close> returns them
  (None for a request whose exception leaves the function).
\<close>

fun m_answers :: "bool \<Rightarrow> nat \<Rightarrow> net \<Rightarrow> json list" where
  "m_answers jc 0 net = []"
| "m_answers jc (Suc n) net =
     (case fst (m_call_api jc ''POST'' net) of Inr r \<Rightarrow> r | Inl e \<Rightarrow> JNull)
       # m_answers jc n (net_next net)"

section \<open>Properties of the generators\<close>

lemma choice_Some_mem: "choice xs g = Some (x, g') \<Longrightarrow> x \<in> set xs"
  by (auto simp: choice_def split: if_splits)

lemma choice_reach:
  assumes "c \<in> set xs"
  shows "\<exists>g. map_option fst (choice xs g) = Some c"
proof -
  from assms obtain i where i: "i < length xs" "xs ! i = c" by (auto simp: in_set_conv_nth)
  then have "xs \<noteq> []" "i mod length xs = i" by auto
  with i have "map_option fst (choice xs (\<lambda>_. i)) = Some c" by (simp add: choice_def)
  then show ?thesis by blast
qed

lemma get_diagnosis_id_eq:
  "get_diagnosis_id s =
     (if diagnosis s = NotAnObject then Inl AttributeError else Inr (diagnosisId s))"
  by (simp add: get_diagnosis_id_def diagnosisId_def split: diagnosis_value.splits)

lemma normal_samples_of_eq:
  "normal_samples_of samples d =
     (if (\<exists>s\<in>set samples. sampleType s = Some ''Normal'' \<and> diagnosis s = NotAnObject)
      then Inl AttributeError
      else Inr (normal_candidates samples d))"
  by (induction samples) (auto simp: get_diagnosis_id_eq normal_candidates_def)

lemma find_normal_sample_eq:
  "find_normal_sample samples t g =
     (if diagnosis t = NotAnObject then Inl AttributeError
      else if falsy_id (diagnosisId t) then Inr (None, g)
      else if (\<exists>s\<in>set samples. sampleType s = Some ''Normal'' \<and> diagnosis s = NotAnObject)
        then Inl AttributeError
      else if normal_candidates samples (diagnosisId t) = [] then Inr (None, g)
      else Inr (Some (normal_candidates samples (diagnosisId t) !
                        (g 0 mod length (normal_candidates samples (diagnosisId t)))),
                rng_next g))"
  by (auto simp: find_normal_sample_def get_diagnosis_id_eq normal_samples_of_eq choice_def)

lemma find_normal_sample_reach:
  assumes "diagnosis t \<noteq> NotAnObject" "\<not> falsy_id (diagnosisId t)"
    "\<not> (\<exists>s\<in>set samples. sampleType s = Some ''Normal'' \<and> diagnosis s = NotAnObject)"
    "c \<in> set (normal_candidates samples (diagnosisId t))"
  shows "\<exists>g. map_sum id fst (find_normal_sample samples t g) = Inr (Some c)"
proof -
  let ?cs = "normal_candidates samples (diagnosisId t)"
  from assms(4) obtain i where i: "i < length ?cs" "?cs ! i = c" by (auto simp: in_set_conv_nth)
  then have "?cs \<noteq> []" "i mod length ?cs = i" by auto
  with assms(1-3) i have "map_sum id fst (find_normal_sample samples t (\<lambda>_. i)) = Inr (Some c)"
    by (simp add: find_normal_sample_eq)
  then show ?thesis by blast
qed

lemma gatk_job_for_cases:
  "(case gatk_job_for samples t g of
      Inl e \<Rightarrow>
        e = AttributeError \<and>
        (diagnosis t = NotAnObject \<or>
         \<not> falsy_id (diagnosisId t) \<and>
         (\<exists>s\<in>set samples. sampleType s = Some ''Normal'' \<and> diagnosis s = NotAnObject))
    | Inr (sub, g') \<Rightarrow>
        diagnosis t \<noteq> NotAnObject \<and>
        (falsy_id (diagnosisId t) \<or>
         \<not> (\<exists>s\<in>set samples. sampleType s = Some ''Normal'' \<and> diagnosis s = NotAnObject)) \<and>
        tumor sub = t \<and> tumorSampleId (payload sub) = sampleId t \<and>
        normalSampleId (payload sub) = map_option sampleId (normal sub) \<and>
        (case normal sub of
           Some n \<Rightarrow> \<not> falsy_id (diagnosisId t) \<and>
                     n \<in> set (normal_candidates samples (diagnosisId t))
         | None \<Rightarrow> falsy_id (diagnosisId t) \<or>
                   normal_candidates samples (diagnosisId t) = []))"
  by (auto simp: gatk_job_for_def find_normal_sample_eq Let_def split: prod.splits option.splits)

lemma gatk_jobs_loop_fst: "map fst (gatk_jobs_loop samples ts g) = ts"
  by (induction ts arbitrary: g) (auto split: sum.splits)

lemma gatk_jobs_loop_entry:
  "(t, r) \<in> set (gatk_jobs_loop samples ts g) \<Longrightarrow>
     t \<in> set ts \<and>
     (\<exists>g0. case r of
             Inl e \<Rightarrow> gatk_job_for samples t g0 = Inl e
           | Inr sub \<Rightarrow> (\<exists>g1. gatk_job_for samples t g0 = Inr (sub, g1)))"
proof (induction ts arbitrary: g)
  case Nil
  then show ?case by simp
next
  case (Cons t0 ts)
  show ?case
  proof (cases "gatk_job_for samples t0 g")
    case (Inl e)
    with Cons.prems have "(t, r) = (t0, Inl e) \<or> (t, r) \<in> set (gatk_jobs_loop samples ts g)"
      by simp
    then show ?thesis
    proof
      assume "(t, r) = (t0, Inl e)"
      with Inl show ?thesis by (intro conjI exI[of _ g]) simp_all
    next
      assume "(t, r) \<in> set (gatk_jobs_loop samples ts g)"
      from Cons.IH[OF this] show ?thesis by auto
    qed
  next
    case (Inr p)
    obtain sub g1 where p: "p = (sub, g1)" by (cases p)
    with Inr Cons.prems have
      "(t, r) = (t0, Inr sub) \<or> (t, r) \<in> set (gatk_jobs_loop samples ts g1)" by simp
    then show ?thesis
    proof
      assume "(t, r) = (t0, Inr sub)"
      with Inr p show ?thesis by (intro conjI exI[of _ g]) simp_all
    next
      assume "(t, r) \<in> set (gatk_jobs_loop samples ts g1)"
      from Cons.IH[OF this] show ?thesis by auto
    qed
  qed
qed

lemma gatk_attempt_cases:
  assumes "(t, r) \<in> set (gatk_attempts samples g)"
  shows "is_tumor_type t \<and> t \<in> set samples \<and>
    (case r of
      Inl e \<Rightarrow>
        e = AttributeError \<and>
        (diagnosis t = NotAnObject \<or>
         \<not> falsy_id (diagnosisId t) \<and>
         (\<exists>s\<in>set samples. sampleType s = Some ''Normal'' \<and> diagnosis s = NotAnObject))
    | Inr sub \<Rightarrow>
        diagnosis t \<noteq> NotAnObject \<and>
        (falsy_id (diagnosisId t) \<or>
         \<not> (\<exists>s\<in>set samples. sampleType s = Some ''Normal'' \<and> diagnosis s = NotAnObject)) \<and>
        tumor sub = t \<and> tumorSampleId (payload sub) = sampleId t \<and>
        normalSampleId (payload sub) = map_option sampleId (normal sub) \<and>
        (case normal sub of
           Some n \<Rightarrow> \<not> falsy_id (diagnosisId t) \<and>
                     n \<in> set (normal_candidates samples (diagnosisId t))
         | None \<Rightarrow> falsy_id (diagnosisId t) \<or>
                   normal_candidates samples (diagnosisId t) = []))"
proof -
  from assms have "(t, r) \<in> set (gatk_jobs_loop samples (filter is_tumor_type samples) g)"
    by (simp add: gatk_attempts_def)
  from gatk_jobs_loop_entry[OF this] obtain g0 where
    t: "t \<in> set (filter is_tumor_type samples)" and
    r: "case r of
          Inl e \<Rightarrow> gatk_job_for samples t g0 = Inl e
        | Inr sub \<Rightarrow> (\<exists>g1. gatk_job_for samples t g0 = Inr (sub, g1))" by blast
  from gatk_job_for_cases[where samples = samples and t = t and g = g0] r t show ?thesis
    by (cases r) auto
qed

lemma generate_gatk_jobs_mem:
  "sub \<in> set (generate_gatk_jobs samples g) \<longleftrightarrow>
     (\<exists>t. (t, Inr sub) \<in> set (gatk_attempts samples g))"
  by (auto simp: generate_gatk_jobs_def split: sum.splits)

lemma group_insert_keys: "fst ` set (group_insert k0 v d) = insert k0 (fst ` set d)"
  by (induction k0 v d rule: group_insert.induct) (auto split: if_splits)

lemma group_insert_distinct:
  "distinct (map fst d) \<Longrightarrow> distinct (map fst (group_insert k0 v d))"
proof (induction k0 v d rule: group_insert.induct)
  case (1 k v)
  then show ?case by simp
next
  case (2 k v k' vs rest)
  show ?case
  proof (cases "k = k'")
    case True
    with 2 show ?thesis by simp
  next
    case False
    have "fst ` set (group_insert k v rest) = insert k (fst ` set rest)"
      by (rule group_insert_keys)
    with False 2 show ?thesis by auto
  qed
qed

lemma group_insert_mem:
  "distinct (map fst d) \<Longrightarrow> (k, vs) \<in> set (group_insert k0 v d) \<Longrightarrow>
     (k, vs) \<in> set d \<and> k \<noteq> k0 \<or>
     k = k0 \<and> ((\<exists>vs'. (k0, vs') \<in> set d \<and> vs = vs' @ [v]) \<or> (k0 \<notin> fst ` set d \<and> vs = [v]))"
proof (induction k0 v d rule: group_insert.induct)
  case (1 k v)
  then show ?case by simp
next
  case (2 k0 v k' vs' rest)
  show ?case
  proof (cases "k0 = k'")
    case True
    with "2.prems" show ?thesis by (auto simp: image_iff)
  next
    case False
    with 2 show ?thesis by (auto simp: image_iff)
  qed
qed

lemma group_by_snoc: "group_by key (xs @ [x]) = group_insert (key x) x (group_by key xs)"
  by (simp add: group_by_def)

lemma group_by_keys: "fst ` set (group_by key xs) = key ` set xs"
  by (induction xs rule: rev_induct) (auto simp: group_by_snoc group_insert_keys group_by_def)

lemma group_by_distinct: "distinct (map fst (group_by key xs))"
  by (induction xs rule: rev_induct) (auto simp: group_by_snoc group_insert_distinct group_by_def)

lemma group_by_filter:
  "(k, vs) \<in> set (group_by key xs) \<Longrightarrow> vs = filter (\<lambda>x. key x = k) xs"
proof (induction xs arbitrary: k vs rule: rev_induct)
  case Nil
  then show ?case by (simp add: group_by_def)
next
  case (snoc x xs)
  from snoc.prems have "(k, vs) \<in> set (group_insert (key x) x (group_by key xs))"
    by (simp add: group_by_snoc)
  from group_insert_mem[OF group_by_distinct this] show ?case
  proof (elim disjE conjE exE)
    assume "(k, vs) \<in> set (group_by key xs)" "k \<noteq> key x"
    with snoc.IH show ?thesis by auto
  next
    fix vs' assume "k = key x" "(key x, vs') \<in> set (group_by key xs)" "vs = vs' @ [x]"
    with snoc.IH[of "key x" vs'] show ?thesis by simp
  next
    assume k: "k = key x" and nk: "key x \<notin> fst ` set (group_by key xs)" and "vs = [x]"
    from nk have "key x \<notin> key ` set xs" by (simp add: group_by_keys)
    then have "\<forall>y\<in>set xs. key y \<noteq> key x" by (metis imageI)
    then have "filter (\<lambda>y. key y = key x) xs = []" by (induction xs) auto
    with k \<open>vs = [x]\<close> show ?thesis by simp
  qed
qed


lemma m_jobs_for_diagnosis_mem:
  "sub \<in> set (m_jobs_for_diagnosis ds) \<Longrightarrow>
     m_tumor sub \<in> set ds \<and> m_sampleType (m_tumor sub) = ''Tumor Tissue'' \<and>
     (\<exists>rest. filter (\<lambda>s. m_sampleType s = ''Blood'') ds = m_normal sub # rest) \<and>
     m_tumorSampleId (m_payload sub) = m_sampleId (m_tumor sub) \<and>
     m_normalSampleId (m_payload sub) = m_sampleId (m_normal sub)"
proof -
  assume a: "sub \<in> set (m_jobs_for_diagnosis ds)"
  let ?T = "filter (\<lambda>s. m_sampleType s = ''Tumor Tissue'') ds"
  let ?N = "filter (\<lambda>s. m_sampleType s = ''Blood'') ds"
  have ne: "?T \<noteq> [] \<and> ?N \<noteq> []"
  proof (rule ccontr)
    assume "\<not> (?T \<noteq> [] \<and> ?N \<noteq> [])"
    then have "\<not> (?T \<noteq> [] \<and> ?N \<noteq> [])" by blast
    then have "m_jobs_for_diagnosis ds = []"
      unfolding m_jobs_for_diagnosis_def Let_def by (rule if_not_P)
    with a show False by simp
  qed
  then obtain n rest where N: "?N = n # rest" by (cases ?N) auto
  with ne have "m_jobs_for_diagnosis ds =
     map (\<lambda>tumor_sample.
            \<lparr>m_tumor = tumor_sample, m_normal = n,
             m_payload = \<lparr>m_tumorSampleId = m_sampleId tumor_sample,
                          m_normalSampleId = m_sampleId n\<rparr>\<rparr>) ?T"
    by (simp add: m_jobs_for_diagnosis_def Let_def)
  with a obtain t where "t \<in> set ?T"
    "sub = \<lparr>m_tumor = t, m_normal = n,
             m_payload = \<lparr>m_tumorSampleId = m_sampleId t, m_normalSampleId = m_sampleId n\<rparr>\<rparr>"
    by auto
  with N show ?thesis by simp
qed

lemma m_jobs_for_diagnosis_tumors:
  "map m_tumor (m_jobs_for_diagnosis ds) =
     (if filter (\<lambda>s. m_sampleType s = ''Blood'') ds = [] then []
      else filter (\<lambda>s. m_sampleType s = ''Tumor Tissue'') ds)"
  by (auto simp: m_jobs_for_diagnosis_def Let_def comp_def split: list.splits)

lemma m_generate_gatk_jobs_mem:
  "sub \<in> set (m_generate_gatk_jobs samples) \<longleftrightarrow>
     (\<exists>k \<in> m_diagnosisId ` set samples.
        sub \<in> set (m_jobs_for_diagnosis (filter (\<lambda>s. m_diagnosisId s = k) samples)))"
proof
  assume "sub \<in> set (m_generate_gatk_jobs samples)"
  then obtain k ds where kd: "(k, ds) \<in> set (group_by m_diagnosisId samples)"
      and s: "sub \<in> set (m_jobs_for_diagnosis ds)"
    by (fastforce simp: m_generate_gatk_jobs_def)
  from kd have "k \<in> fst ` set (group_by m_diagnosisId samples)" by force
  then have "k \<in> m_diagnosisId ` set samples" by (simp add: group_by_keys)
  moreover from group_by_filter[OF kd] s
  have "sub \<in> set (m_jobs_for_diagnosis (filter (\<lambda>s. m_diagnosisId s = k) samples))" by simp
  ultimately show "\<exists>k \<in> m_diagnosisId ` set samples.
        sub \<in> set (m_jobs_for_diagnosis (filter (\<lambda>s. m_diagnosisId s = k) samples))" ..
next
  assume "\<exists>k \<in> m_diagnosisId ` set samples.
        sub \<in> set (m_jobs_for_diagnosis (filter (\<lambda>s. m_diagnosisId s = k) samples))"
  then obtain k where k: "k \<in> m_diagnosisId ` set samples"
    and s: "sub \<in> set (m_jobs_for_diagnosis (filter (\<lambda>s. m_diagnosisId s = k) samples))" by blast
  from k have "k \<in> fst ` set (group_by m_diagnosisId samples)" by (simp add: group_by_keys)
  then obtain ds where kd: "(k, ds) \<in> set (group_by m_diagnosisId samples)" by force
  from group_by_filter[OF kd] s have "sub \<in> set (m_jobs_for_diagnosis ds)" by simp
  with kd show "sub \<in> set (m_generate_gatk_jobs samples)"
    by (force simp: m_generate_gatk_jobs_def)
qed

lemma m_job_same_diagnosis:
  assumes "sub \<in> set (m_generate_gatk_jobs samples)"
  shows "m_tumor sub \<in> set samples \<and> m_normal sub \<in> set samples \<and>
         m_sampleType (m_tumor sub) = ''Tumor Tissue'' \<and>
         m_diagnosisId (m_normal sub) = m_diagnosisId (m_tumor sub) \<and>
         (\<exists>rest. filter (\<lambda>s. m_sampleType s = ''Blood'' \<and> m_diagnosisId s = m_diagnosisId (m_tumor sub)) samples
                  = m_normal sub # rest) \<and>
         m_tumorSampleId (m_payload sub) = m_sampleId (m_tumor sub) \<and>
         m_normalSampleId (m_payload sub) = m_sampleId (m_normal sub)"
proof -
  from assms obtain k where
    s: "sub \<in> set (m_jobs_for_diagnosis (filter (\<lambda>s. m_diagnosisId s = k) samples))"
    by (auto simp: m_generate_gatk_jobs_mem)
  let ?ds = "filter (\<lambda>s. m_diagnosisId s = k) samples"
  from m_jobs_for_diagnosis_mem[OF s] obtain rest where
    t: "m_tumor sub \<in> set ?ds" "m_sampleType (m_tumor sub) = ''Tumor Tissue''" and
    n: "filter (\<lambda>s. m_sampleType s = ''Blood'') ?ds = m_normal sub # rest" and
    p: "m_tumorSampleId (m_payload sub) = m_sampleId (m_tumor sub)"
       "m_normalSampleId (m_payload sub) = m_sampleId (m_normal sub)" by blast
  from t have kt: "m_diagnosisId (m_tumor sub) = k" "m_tumor sub \<in> set samples" by auto
  from n have "m_normal sub \<in> set (filter (\<lambda>s. m_sampleType s = ''Blood'') ?ds)" by simp
  then have kn: "m_normal sub \<in> set samples" "m_diagnosisId (m_normal sub) = k" by auto
  from n have "filter (\<lambda>s. m_sampleType s = ''Blood'' \<and> m_diagnosisId s = k) samples = m_normal sub # rest"
    by (simp add: conj_commute)
  with kt kn t p show ?thesis by simp
qed

lemma m_job_exists_iff:
  assumes "t \<in> set samples" "m_sampleType t = ''Tumor Tissue''"
  shows "(\<exists>sub \<in> set (m_generate_gatk_jobs samples). m_tumor sub = t) \<longleftrightarrow>
         (\<exists>n \<in> set samples. m_sampleType n = ''Blood'' \<and> m_diagnosisId n = m_diagnosisId t)"
proof
  assume "\<exists>sub \<in> set (m_generate_gatk_jobs samples). m_tumor sub = t"
  then obtain sub where s: "sub \<in> set (m_generate_gatk_jobs samples)" "m_tumor sub = t" by blast
  from m_job_same_diagnosis[OF s(1)] s(2)
  have "m_normal sub \<in> set samples" "m_diagnosisId (m_normal sub) = m_diagnosisId t"
    and "\<exists>rest. filter (\<lambda>s. m_sampleType s = ''Blood'' \<and> m_diagnosisId s = m_diagnosisId t) samples
                  = m_normal sub # rest" by auto
  then have "m_normal sub \<in> set (filter (\<lambda>s. m_sampleType s = ''Blood'' \<and> m_diagnosisId s = m_diagnosisId t) samples)"
    by (metis list.set_intros(1))
  then show "\<exists>n \<in> set samples. m_sampleType n = ''Blood'' \<and> m_diagnosisId n = m_diagnosisId t"
    by auto
next
  assume "\<exists>n \<in> set samples. m_sampleType n = ''Blood'' \<and> m_diagnosisId n = m_diagnosisId t"
  then obtain n where n: "n \<in> set samples" "m_sampleType n = ''Blood''"
     "m_diagnosisId n = m_diagnosisId t" by blast
  let ?k = "m_diagnosisId t"
  let ?ds = "filter (\<lambda>s. m_diagnosisId s = ?k) samples"
  from n have "n \<in> set (filter (\<lambda>s. m_sampleType s = ''Blood'') ?ds)" by simp
  then have ne: "filter (\<lambda>s. m_sampleType s = ''Blood'') ?ds \<noteq> []"
    by (metis empty_iff list.set(1))
  from assms have "t \<in> set (filter (\<lambda>s. m_sampleType s = ''Tumor Tissue'') ?ds)" by simp
  with ne have "t \<in> set (map m_tumor (m_jobs_for_diagnosis ?ds))"
    by (simp only: m_jobs_for_diagnosis_tumors if_False)
  then obtain sub where sub: "sub \<in> set (m_jobs_for_diagnosis ?ds)" "m_tumor sub = t" by auto
  from assms have "?k \<in> m_diagnosisId ` set samples" by simp
  with sub(1) have "sub \<in> set (m_generate_gatk_jobs samples)"
    by (subst m_generate_gatk_jobs_mem) blast
  with sub(2) show "\<exists>sub \<in> set (m_generate_gatk_jobs samples). m_tumor sub = t" by blast
qed

lemma day_us_pos: "0 < day_us"
  by (simp add: day_us_def)

lemma strftime_strptime_days: "strftime (strptime d + days k) = d + k"
  using day_us_pos by (simp add: strftime_def strptime_def days_def flip: distrib_right)

lemma strftime_plus_days: "strftime (t + days k) = strftime t + k"
  using day_us_pos by (simp add: strftime_def days_def)

lemma randint_bounds:
  assumes "a \<le> b" "randint a b g = (x, g')"
  shows "a \<le> x \<and> x \<le> b"
proof -
  from assms(1) have "0 < b - a + 1" by simp
  then have "0 \<le> int (g 0) mod (b - a + 1)" "int (g 0) mod (b - a + 1) < b - a + 1"
    by (rule pos_mod_sign, rule pos_mod_bound)
  moreover from assms(2) have "x = a + int (g 0) mod (b - a + 1)" by (simp add: randint_def)
  ultimately show ?thesis by linarith
qed

lemma randrange_Inr:
  "randrange n g = Inr (k, g') \<Longrightarrow> 0 \<le> k \<and> k < n"
  by (auto simp: randrange_def split: if_splits)

lemma randrange_total: "0 < n \<Longrightarrow> \<exists>k g'. randrange n g = Inr (k, g')"
  by (simp add: randrange_def)

lemma generate_random_date_Inr:
  assumes "generate_random_date start_date end_date g = Inr (t, g')"
  shows "\<exists>k. t = start_date + days k \<and> 0 \<le> k \<and> k < (end_date - start_date) div day_us"
  using assms
  by (auto simp: generate_random_date_def Let_def randrange_def split: if_splits sum.splits)

lemma generate_random_date_total:
  assumes "0 < (end_date - start_date) div day_us"
  shows "\<exists>t g'. generate_random_date start_date end_date g = Inr (t, g')"
  using assms by (simp add: generate_random_date_def Let_def randrange_def)

lemma window_from_midnight: "(now - strptime d) div day_us = strftime now - d"
proof -
  have "(now + (- d) * day_us) div day_us = (- d) + now div day_us"
    using day_us_pos by (intro div_mult_self1) simp
  then show ?thesis by (simp add: strptime_def strftime_def)
qed

lemma sample_payload_Inr:
  assumes "sample_payload diag now i g = Inr (p, g')"
  shows "d_diagnosisDate diag \<le> sd_collectionDate p \<and> sd_collectionDate p < strftime now \<and>
         (sd_sampleType p, sd_tumorPurity p) = fst (sample_type_purity i g)"
proof -
  obtain ty pu g1 where tp: "sample_type_purity i g = ((ty, pu), g1)"
    by (cases "sample_type_purity i g") auto
  with assms obtain cd where
    cd: "generate_random_date (strptime (d_diagnosisDate diag)) now g1 = Inr (cd, g')"
    and p: "p = \<lparr>sd_sampleType = ty, sd_collectionDate = strftime cd, sd_tumorPurity = pu\<rparr>"
    by (auto simp: sample_payload_def Let_def split: sum.splits)
  from generate_random_date_Inr[OF cd] obtain k where
    k: "cd = strptime (d_diagnosisDate diag) + days k" "0 \<le> k"
       "k < (now - strptime (d_diagnosisDate diag)) div day_us" by blast
  then have "strftime cd = d_diagnosisDate diag + k" "k < strftime now - d_diagnosisDate diag"
    by (simp_all add: strftime_strptime_days window_from_midnight)
  with k p tp show ?thesis by simp
qed


lemma samples_loop_Inr:
  "samples_loop diag now i n g = Inr (ps, g') \<Longrightarrow>
     length ps = n \<and>
     (\<forall>j<n. d_diagnosisDate diag \<le> sd_collectionDate (ps ! j) \<and>
            sd_collectionDate (ps ! j) < strftime now \<and>
            (\<exists>g0. (sd_sampleType (ps ! j), sd_tumorPurity (ps ! j)) = fst (sample_type_purity (i + j) g0)))"
proof (induction n arbitrary: i g ps)
  case 0
  then show ?case by simp
next
  case (Suc n)
  from Suc.prems obtain p g1 qs where
    p: "sample_payload diag now i g = Inr (p, g1)" and
    q: "samples_loop diag now (Suc i) n g1 = Inr (qs, g')" and
    ps: "ps = p # qs"
    by (auto split: sum.splits)
  from Suc.IH[OF q] have len: "length qs = n" and
    ih: "\<forall>j<n. d_diagnosisDate diag \<le> sd_collectionDate (qs ! j) \<and>
            sd_collectionDate (qs ! j) < strftime now \<and>
            (\<exists>g0. (sd_sampleType (qs ! j), sd_tumorPurity (qs ! j)) = fst (sample_type_purity (Suc i + j) g0))"
    by simp_all
  have "d_diagnosisDate diag \<le> sd_collectionDate (ps ! j) \<and>
            sd_collectionDate (ps ! j) < strftime now \<and>
            (\<exists>g0. (sd_sampleType (ps ! j), sd_tumorPurity (ps ! j)) = fst (sample_type_purity (i + j) g0))"
    if j: "j < Suc n" for j
  proof (cases j)
    case 0
    with sample_payload_Inr[OF p] ps show ?thesis by auto
  next
    case (Suc j')
    with j ih ps show ?thesis by auto
  qed
  with ps len show ?case by simp
qed


lemma sample_type_purity_0:
  "\<exists>p. fst (sample_type_purity 0 g) = (''Tumor Tissue'', p) \<and> 50 \<le> p \<and> p \<le> 95"
proof -
  obtain p g1 where r: "randint 50 95 g = (p, g1)" by (cases "randint 50 95 g")
  from randint_bounds[OF _ r] have "50 \<le> p \<and> p \<le> 95" by simp
  with r show ?thesis by (simp add: sample_type_purity_def uniform_round2_def)
qed

lemma sample_type_purity_1: "fst (sample_type_purity (Suc 0) g) = (''Blood'', 0)"
  by (simp add: sample_type_purity_def)

lemma samples_for_diagnosis_Inr:
  assumes "samples_for_diagnosis diag now g = Inr (ps, g')"
  shows "1 \<le> length ps \<and> length ps \<le> 3 \<and>
         sd_sampleType (ps ! 0) = ''Tumor Tissue'' \<and> 50 \<le> sd_tumorPurity (ps ! 0) \<and>
         (2 \<le> length ps \<longrightarrow> sd_sampleType (ps ! 1) = ''Blood'' \<and> sd_tumorPurity (ps ! 1) = 0) \<and>
         (\<forall>p\<in>set ps. d_diagnosisDate diag \<le> sd_collectionDate p)"
proof -
  obtain n g1 where r: "randint 1 3 g = (n, g1)" by (cases "randint 1 3 g")
  from randint_bounds[OF _ r] have n: "1 \<le> n" "n \<le> 3" by simp_all
  from assms r have l: "samples_loop diag now 0 (nat n) g1 = Inr (ps, g')"
    by (simp add: samples_for_diagnosis_def)
  from samples_loop_Inr[OF l] have len: "length ps = nat n" and
    all: "\<And>j. j < nat n \<Longrightarrow> d_diagnosisDate diag \<le> sd_collectionDate (ps ! j) \<and>
            (\<exists>g0. (sd_sampleType (ps ! j), sd_tumorPurity (ps ! j)) = fst (sample_type_purity (0 + j) g0))"
    by auto
  from n len have b: "1 \<le> length ps" "length ps \<le> 3" by simp_all
  from all[of 0] n obtain g0 where
    "(sd_sampleType (ps ! 0), sd_tumorPurity (ps ! 0)) = fst (sample_type_purity 0 g0)" by auto
  with sample_type_purity_0[of g0]
  have first: "sd_sampleType (ps ! 0) = ''Tumor Tissue''" "50 \<le> sd_tumorPurity (ps ! 0)" by auto
  have second: "sd_sampleType (ps ! 1) = ''Blood'' \<and> sd_tumorPurity (ps ! 1) = 0" if "2 \<le> length ps"
  proof -
    from that len have "1 < nat n" by simp
    from all[OF this] obtain g0 where
      "(sd_sampleType (ps ! 1), sd_tumorPurity (ps ! 1)) = fst (sample_type_purity (Suc 0) g0)" by auto
    then show ?thesis by (simp add: sample_type_purity_1)
  qed
  have dates: "\<forall>p\<in>set ps. d_diagnosisDate diag \<le> sd_collectionDate p"
    using all len by (auto simp: in_set_conv_nth)
  from b first second dates show ?thesis by blast
qed





lemma m_generate_samples_dates:
  "m_generate_samples ds now g = Inr (subs, g') \<Longrightarrow>
     \<forall>(d, p)\<in>set subs. d \<in> set ds \<and> d_diagnosisDate d \<le> sd_collectionDate p"
proof (induction ds arbitrary: g subs g')
  case Nil
  then show ?case by simp
next
  case (Cons d ds)
  from Cons.prems obtain ps g1 qs where
    p: "samples_for_diagnosis d now g = Inr (ps, g1)" and
    q: "m_generate_samples ds now g1 = Inr (qs, g')" and
    s: "subs = map (\<lambda>p. (d, p)) ps @ qs"
    by (auto split: sum.splits)
  from samples_for_diagnosis_Inr[OF p] have "\<forall>p\<in>set ps. d_diagnosisDate d \<le> sd_collectionDate p"
    by simp
  with Cons.IH[OF q] s show ?case by auto
qed



lemma strftime_days: "strftime (days n) = n"
  using day_us_pos by (simp add: strftime_def days_def)

lemma sample_payload_days:
  "sample_payload diag (days n) i g =
     (if n \<le> d_diagnosisDate diag then Inl ValueError
      else Inr (\<lparr>sd_sampleType = fst (fst (sample_type_purity i g)),
                 sd_collectionDate = d_diagnosisDate diag +
                    int (snd (sample_type_purity i g) 0) mod (n - d_diagnosisDate diag),
                 sd_tumorPurity = snd (fst (sample_type_purity i g))\<rparr>,
                rng_next (snd (sample_type_purity i g))))"
proof -
  obtain ty pu g1 where tp: "sample_type_purity i g = ((ty, pu), g1)"
    by (cases "sample_type_purity i g") auto
  have w: "(days n - strptime (d_diagnosisDate diag)) div day_us = n - d_diagnosisDate diag"
    by (simp add: window_from_midnight strftime_days)
  show ?thesis
    by (simp add: sample_payload_def tp generate_random_date_def Let_def w randrange_def
          strftime_strptime_days)
qed



lemma matching_drugs_empty_iff:
  "matching_drugs_for pvs pot = [] \<longleftrightarrow>
     (\<forall>v\<in>set pvs. \<forall>d\<in>set pot. \<not> str_in (v_geneSymbol v) (dr_gene d))"
  by (auto simp: matching_drugs_for_def filter_empty_conv)

lemma matching_drugs_subset: "set (matching_drugs_for pvs pot) \<subseteq> set pot"
  by (auto simp: matching_drugs_for_def)

lemma evidence_choice: "\<exists>ev g'. choice EVIDENCE_LEVELS g = Some (ev, g')"
  by (simp add: choice_def EVIDENCE_LEVELS_def)

lemma recommend_drugs_Inr:
  "recommend_drugs pid did diag pvs fb now ds g = Inr (items, g') \<Longrightarrow>
     map t_drug items = ds \<and>
     (\<forall>it\<in>set items.
        t_fallback it = fb \<and>
        t_linked it = filter (\<lambda>v. str_in (v_geneSymbol v) (dr_gene (t_drug it))) pvs \<and>
        r_variantIds (t_payload it) = map variant_id (t_linked it) \<and>
        r_patientId (t_payload it) = pid \<and> r_diagnosisId (t_payload it) = did \<and>
        r_drugName (t_payload it) = dr_name (t_drug it) \<and>
        r_dosage (t_payload it) = dr_dosage (t_drug it) \<and>
        d_diagnosisDate diag \<le> r_recommendationDate (t_payload it))"
proof (induction ds arbitrary: g items g')
  case Nil
  then show ?case by simp
next
  case (Cons drug rest)
  from Cons.prems obtain rd g1 ev g2 its where
    d: "generate_random_date (strptime (d_diagnosisDate diag)) now g = Inr (rd, g1)" and
    e: "choice EVIDENCE_LEVELS g1 = Some (ev, g2)" and
    r: "recommend_drugs pid did diag pvs fb now rest g2 = Inr (its, g')" and
    i: "items =
          \<lparr>t_drug = drug,
           t_linked = filter (\<lambda>v. str_in (v_geneSymbol v) (dr_gene drug)) pvs,
           t_fallback = fb,
           t_payload =
             \<lparr>r_patientId = pid, r_diagnosisId = did, r_drugName = dr_name drug,
              r_dosage = dr_dosage drug, r_recommendationDate = strftime rd,
              r_evidenceLevel = ev,
              r_variantIds = map variant_id
                 (filter (\<lambda>v. str_in (v_geneSymbol v) (dr_gene drug)) pvs)\<rparr>\<rparr> # its"
    by (auto simp: Let_def split: sum.splits option.splits)
  from generate_random_date_Inr[OF d] obtain k where
    "rd = strptime (d_diagnosisDate diag) + days k" "0 \<le> k" by blast
  then have "d_diagnosisDate diag \<le> strftime rd" by (simp add: strftime_strptime_days)
  with Cons.IH[OF r] i show ?case by simp
qed

lemma recommend_drugs_total:
  assumes "d_diagnosisDate diag < strftime now"
  shows "\<exists>items g'. recommend_drugs pid did diag pvs fb now ds g = Inr (items, g')"
proof (induction ds arbitrary: g)
  case Nil
  then show ?case by simp
next
  case (Cons drug rest)
  from assms have "0 < (now - strptime (d_diagnosisDate diag)) div day_us"
    by (simp add: window_from_midnight)
  from generate_random_date_total[OF this, of g] obtain rd g1 where
    d: "generate_random_date (strptime (d_diagnosisDate diag)) now g = Inr (rd, g1)" by blast
  from evidence_choice[of g1] obtain ev g2 where e: "choice EVIDENCE_LEVELS g1 = Some (ev, g2)"
    by blast
  from Cons[of g2] obtain its g3 where
    "recommend_drugs pid did diag pvs fb now rest g2 = Inr (its, g3)" by blast
  with d e show ?case by (simp add: Let_def)
qed

lemma recommend_group_Inr:
  assumes "recommend_group diagnoses now (key, pvs) g = Inr (items, g')"
  shows "\<forall>it\<in>set items.
        t_linked it = filter (\<lambda>v. str_in (v_geneSymbol v) (dr_gene (t_drug it))) pvs \<and>
        r_variantIds (t_payload it) = map variant_id (t_linked it) \<and>
        (r_patientId (t_payload it), r_diagnosisId (t_payload it)) = key \<and>
        r_drugName (t_payload it) = dr_name (t_drug it) \<and>
        r_dosage (t_payload it) = dr_dosage (t_drug it)"
proof -
  obtain pid did where key: "key = (pid, did)" by (cases key)
  show ?thesis
  proof (cases "find (\<lambda>d. d_diagnosisId d = did) diagnoses")
    case None
    with assms key show ?thesis by (simp add: recommend_group_def)
  next
    case (Some diag)
    let ?pot = "drugs_get (d_cancerType diag)"
    let ?m = "matching_drugs_for pvs ?pot"
    show ?thesis
    proof (cases "?pot = []")
      case True
      with assms key Some show ?thesis by (simp add: recommend_group_def Let_def)
    next
      case False
      show ?thesis
      proof (cases "?m = []")
        case True
        with assms key Some False obtain drug g1 where
          "recommend_drugs pid did diag pvs True now [drug] g1 = Inr (items, g')"
          by (auto simp: recommend_group_def Let_def split: option.splits)
        from recommend_drugs_Inr[OF this] key show ?thesis by simp
      next
        case m: False
        with assms key Some False have
          "recommend_drugs pid did diag pvs False now ?m g = Inr (items, g')"
          by (simp add: recommend_group_def Let_def)
        from recommend_drugs_Inr[OF this] key show ?thesis by simp
      qed
    qed
  qed
qed

lemma recommend_group_fallback:
  assumes f: "find (\<lambda>d. d_diagnosisId d = snd key) diagnoses = Some diag"
    and p: "drugs_get (d_cancerType diag) \<noteq> []"
    and m: "matching_drugs_for pvs (drugs_get (d_cancerType diag)) = []"
    and t: "d_diagnosisDate diag < strftime now"
  shows "\<exists>it g'. recommend_group diagnoses now (key, pvs) g = Inr ([it], g') \<and>
           t_fallback it \<and> t_drug it \<in> set (drugs_get (d_cancerType diag)) \<and>
           t_linked it = [] \<and> r_variantIds (t_payload it) = []"
proof -
  obtain pid did where key: "key = (pid, did)" by (cases key)
  let ?pot = "drugs_get (d_cancerType diag)"
  from p obtain drug g1 where c: "choice ?pot g = Some (drug, g1)"
    by (simp add: choice_def)
  then have dp: "drug \<in> set ?pot" by (rule choice_Some_mem)
  from recommend_drugs_total[OF t, of pid did pvs True "[drug]" g1] obtain items g' where
    r: "recommend_drugs pid did diag pvs True now [drug] g1 = Inr (items, g')" by blast
  from recommend_drugs_Inr[OF r] have md: "map t_drug items = [drug]" and
    all: "\<forall>it\<in>set items. t_fallback it = True \<and>
        t_linked it = filter (\<lambda>v. str_in (v_geneSymbol v) (dr_gene (t_drug it))) pvs \<and>
        r_variantIds (t_payload it) = map variant_id (t_linked it)" by simp_all
  from md obtain it where it: "items = [it]" "t_drug it = drug" by (cases items) auto
  from m dp have "filter (\<lambda>v. str_in (v_geneSymbol v) (dr_gene drug)) pvs = []"
    by (auto simp: matching_drugs_empty_iff filter_empty_conv)
  with all it have "t_fallback it" "t_linked it = []" "r_variantIds (t_payload it) = []" by simp_all
  moreover from f p m c r key it have "recommend_group diagnoses now (key, pvs) g = Inr ([it], g')"
    by (simp add: recommend_group_def Let_def)
  ultimately show ?thesis using it dp by blast
qed

lemma recommend_group_fallback_only_if:
  assumes "recommend_group diagnoses now (key, pvs) g = Inr (items, g')" "it \<in> set items"
    "t_fallback it"
  shows "\<exists>diag. find (\<lambda>d. d_diagnosisId d = snd key) diagnoses = Some diag \<and>
           matching_drugs_for pvs (drugs_get (d_cancerType diag)) = []"
proof -
  obtain pid did where key: "key = (pid, did)" by (cases key)
  show ?thesis
  proof (cases "find (\<lambda>d. d_diagnosisId d = did) diagnoses")
    case None
    with assms key show ?thesis by (simp add: recommend_group_def)
  next
    case (Some diag)
    let ?pot = "drugs_get (d_cancerType diag)"
    let ?m = "matching_drugs_for pvs ?pot"
    show ?thesis
    proof (cases "?m = []")
      case True
      with Some key show ?thesis by simp
    next
      case m: False
      then have ne: "?pot \<noteq> []" by (auto simp: matching_drugs_for_def)
      with assms(1) key Some m have
        "recommend_drugs pid did diag pvs False now ?m g = Inr (items, g')"
        by (simp add: recommend_group_def Let_def)
      from recommend_drugs_Inr[OF this] assms(2,3) show ?thesis by auto
    qed
  qed
qed

lemma recommend_groups_mem:
  "recommend_groups diagnoses now gs g = Inr (items, g') \<Longrightarrow> it \<in> set items \<Longrightarrow>
     \<exists>entry\<in>set gs. \<exists>g0 its g1. recommend_group diagnoses now entry g0 = Inr (its, g1) \<and> it \<in> set its"
proof (induction gs arbitrary: g items g')
  case Nil
  then show ?case by simp
next
  case (Cons entry rest)
  from Cons.prems(1) obtain its g1 others where
    a: "recommend_group diagnoses now entry g = Inr (its, g1)" and
    b: "recommend_groups diagnoses now rest g1 = Inr (others, g')" and
    c: "items = its @ others"
    by (auto split: sum.splits)
  from Cons.prems(2) c have "it \<in> set its \<or> it \<in> set others" by simp
  then show ?case
  proof
    assume "it \<in> set its"
    with a show ?thesis by auto
  next
    assume "it \<in> set others"
    from Cons.IH[OF b this] show ?thesis by auto
  qed
qed

lemma recommend_group_fallback_Inr:
  assumes r: "recommend_group diagnoses now (key, pvs) g = Inr (items, g')"
    and i: "it \<in> set items" and fb: "t_fallback it"
  shows "items = [it] \<and> t_linked it = [] \<and> r_variantIds (t_payload it) = []"
proof -
  obtain pid did where key: "key = (pid, did)" by (cases key)
  from recommend_group_fallback_only_if[OF r i fb] obtain diag where
    f: "find (\<lambda>d. d_diagnosisId d = did) diagnoses = Some diag" and
    m: "matching_drugs_for pvs (drugs_get (d_cancerType diag)) = []"
    using key by auto
  let ?pot = "drugs_get (d_cancerType diag)"
  have pot: "?pot \<noteq> []"
  proof
    assume "?pot = []"
    with r f key have "items = []" by (simp add: recommend_group_def Let_def)
    with i show False by simp
  qed
  with r f m key obtain drug g1 where
    c: "choice ?pot g = Some (drug, g1)" and
    d: "recommend_drugs pid did diag pvs True now [drug] g1 = Inr (items, g')"
    by (auto simp: recommend_group_def Let_def split: option.splits)
  from choice_Some_mem[OF c] have dp: "drug \<in> set ?pot" .
  from recommend_drugs_Inr[OF d] have md: "map t_drug items = [drug]" and
    all: "\<forall>it\<in>set items.
        t_linked it = filter (\<lambda>v. str_in (v_geneSymbol v) (dr_gene (t_drug it))) pvs \<and>
        r_variantIds (t_payload it) = map variant_id (t_linked it)" by simp_all
  from md i have it: "items = [it]" "t_drug it = drug" by (cases items; auto)+
  from m dp have "filter (\<lambda>v. str_in (v_geneSymbol v) (dr_gene drug)) pvs = []"
    by (auto simp: matching_drugs_empty_iff filter_empty_conv)
  with all it show ?thesis by simp
qed

lemma recommend_group_no_match_Inr:
  assumes r: "recommend_group diagnoses now (key, pvs) g = Inr (items, g')"
    and f: "find (\<lambda>d. d_diagnosisId d = snd key) diagnoses = Some diag"
    and p: "drugs_get (d_cancerType diag) \<noteq> []"
    and m: "matching_drugs_for pvs (drugs_get (d_cancerType diag)) = []"
  shows "\<exists>it. items = [it] \<and> t_fallback it"
proof -
  obtain pid did where key: "key = (pid, did)" by (cases key)
  from r f p m key obtain drug g1 where
    d: "recommend_drugs pid did diag pvs True now [drug] g1 = Inr (items, g')"
    by (auto simp: recommend_group_def Let_def split: option.splits)
  from recommend_drugs_Inr[OF d] have "map t_drug items = [drug]"
    "\<forall>it\<in>set items. t_fallback it = True" by simp_all
  then show ?thesis by (cases items) auto
qed

lemma recommend_group_total:
  assumes "\<forall>d\<in>set diagnoses. d_diagnosisDate d < strftime now"
  shows "\<exists>items g'. recommend_group diagnoses now entry g = Inr (items, g')"
proof -
  obtain pid did pvs where e: "entry = ((pid, did), pvs)" by (cases entry) auto
  show ?thesis
  proof (cases "find (\<lambda>d. d_diagnosisId d = did) diagnoses")
    case None
    with e show ?thesis by (simp add: recommend_group_def)
  next
    case (Some diag)
    then have "diag \<in> set diagnoses" by (auto simp: find_Some_iff)
    with assms have t: "d_diagnosisDate diag < strftime now" by simp
    let ?pot = "drugs_get (d_cancerType diag)"
    let ?m = "matching_drugs_for pvs ?pot"
    show ?thesis
    proof (cases "?pot = []")
      case True
      with e Some show ?thesis by (simp add: recommend_group_def Let_def)
    next
      case False
      then obtain drug g1 where c: "choice ?pot g = Some (drug, g1)" by (simp add: choice_def)
      from recommend_drugs_total[OF t, of pid did pvs True "[drug]" g1]
           recommend_drugs_total[OF t, of pid did pvs False ?m g]
      show ?thesis using e Some False c by (auto simp: recommend_group_def Let_def)
    qed
  qed
qed

lemma recommend_groups_total:
  assumes "\<forall>d\<in>set diagnoses. d_diagnosisDate d < strftime now"
  shows "\<exists>items g'. recommend_groups diagnoses now gs g = Inr (items, g')"
proof (induction gs arbitrary: g)
  case Nil
  then show ?case by simp
next
  case (Cons entry rest)
  from recommend_group_total[OF assms, of entry g] obtain its g1 where
    "recommend_group diagnoses now entry g = Inr (its, g1)" by blast
  moreover from Cons[of g1] obtain others g2 where
    "recommend_groups diagnoses now rest g1 = Inr (others, g2)" by blast
  ultimately show ?case by simp
qed

lemma recommend_groups_filter:
  "distinct (map fst gs) \<Longrightarrow> recommend_groups diagnoses now gs g = Inr (items, g') \<Longrightarrow>
   (k, pvs) \<in> set gs \<Longrightarrow>
     \<exists>g0 g1. recommend_group diagnoses now (k, pvs) g0 =
               Inr (filter (\<lambda>it. item_key it = k) items, g1)"
proof (induction gs arbitrary: g items g')
  case Nil
  then show ?case by simp
next
  case (Cons entry rest)
  obtain k0 pvs0 where e: "entry = (k0, pvs0)" by (cases entry)
  from Cons.prems(2) obtain its g1 others where
    a: "recommend_group diagnoses now entry g = Inr (its, g1)" and
    b: "recommend_groups diagnoses now rest g1 = Inr (others, g')" and
    c: "items = its @ others"
    by (auto split: sum.splits)
  from Cons.prems(1) e have d: "distinct (map fst rest)" and nk: "k0 \<notin> fst ` set rest" by simp_all
  from recommend_group_Inr[OF a[unfolded e]] have its: "\<forall>it\<in>set its. item_key it = k0"
    by (simp add: item_key_def)
  have others: "item_key it \<in> fst ` set rest" if "it \<in> set others" for it
  proof -
    from recommend_groups_mem[OF b that] obtain en g0 its2 g2 where
      en: "en \<in> set rest" "recommend_group diagnoses now en g0 = Inr (its2, g2)" "it \<in> set its2"
      by blast
    obtain k1 p1 where "en = (k1, p1)" by (cases en)
    with recommend_group_Inr[of diagnoses now k1 p1 g0 its2 g2] en
    have "item_key it = k1" by (simp add: item_key_def)
    with en(1) \<open>en = (k1, p1)\<close> show ?thesis by force
  qed
  show ?case
  proof (cases "k = k0")
    case True
    with Cons.prems(3) e nk have "pvs = pvs0" by force
    from others nk True have "filter (\<lambda>it. item_key it = k) others = []"
      by (auto simp: filter_empty_conv)
    moreover from its True have "filter (\<lambda>it. item_key it = k) its = its" by simp
    ultimately have "filter (\<lambda>it. item_key it = k) items = its" using c by simp
    with a e True \<open>pvs = pvs0\<close> show ?thesis by auto
  next
    case False
    with Cons.prems(3) e have "(k, pvs) \<in> set rest" by simp
    from Cons.IH[OF d b this] obtain g0 g2 where
      "recommend_group diagnoses now (k, pvs) g0 = Inr (filter (\<lambda>it. item_key it = k) others, g2)"
      by blast
    moreover from its False have "filter (\<lambda>it. item_key it = k) its = []"
      by (auto simp: filter_empty_conv)
    ultimately show ?thesis using c by auto
  qed
qed

lemma generate_random_date_days:
  "generate_random_date (strptime d) (days n) g =
     (if n \<le> d then Inl ValueError
      else Inr (strptime d + days (int (g 0) mod (n - d)), rng_next g))"
proof -
  have w: "(days n - strptime d) div day_us = n - d"
    by (simp add: window_from_midnight strftime_days)
  show ?thesis by (simp add: generate_random_date_def Let_def w randrange_def)
qed

lemma drugs_for_every_cancer_type: "\<forall>ct\<in>set (map fst CANCER_TYPES). drugs_get ct \<noteq> []"
  by (simp add: CANCER_TYPES_def drugs_get_def DRUGS_def)

lemma therapy_items_props:
  assumes r: "generate_therapy_recommendations diagnoses variants now g = Inr (items, g')"
    and i: "it \<in> set items"
  shows "(\<forall>v\<in>set (t_linked it). str_in (v_geneSymbol v) (dr_gene (t_drug it)) \<and>
            v \<in> set variants \<and> variant_key v = item_key it) \<and>
         r_variantIds (t_payload it) = map variant_id (t_linked it) \<and>
         r_drugName (t_payload it) = dr_name (t_drug it) \<and>
         (t_fallback it \<longrightarrow> r_variantIds (t_payload it) = [])"
proof -
  from r have rg: "recommend_groups diagnoses now (group_by variant_key variants) g = Inr (items, g')"
    by (simp add: generate_therapy_recommendations_def)
  from recommend_groups_mem[OF rg i] obtain k pvs g0 its g1 where
    e: "(k, pvs) \<in> set (group_by variant_key variants)" and
    c: "recommend_group diagnoses now (k, pvs) g0 = Inr (its, g1)" and m: "it \<in> set its"
    by (metis surj_pair)
  from group_by_filter[OF e] have pvs: "pvs = filter (\<lambda>v. variant_key v = k) variants" .
  from recommend_group_Inr[OF c] m have
    l: "t_linked it = filter (\<lambda>v. str_in (v_geneSymbol v) (dr_gene (t_drug it))) pvs" and
    p: "r_variantIds (t_payload it) = map variant_id (t_linked it)"
       "r_drugName (t_payload it) = dr_name (t_drug it)" and
    k: "item_key it = k" by (simp_all add: item_key_def)
  from l pvs k have "\<forall>v\<in>set (t_linked it). str_in (v_geneSymbol v) (dr_gene (t_drug it)) \<and>
            v \<in> set variants \<and> variant_key v = item_key it" by simp
  moreover have "r_variantIds (t_payload it) = []" if "t_fallback it"
    using recommend_group_fallback_Inr[OF c m that] by simp
  ultimately show ?thesis using p by blast
qed

lemma therapy_fallback_once:
  assumes r: "generate_therapy_recommendations diagnoses variants now g = Inr (items, g')"
    and e: "(k, pvs) \<in> set (group_by variant_key variants)"
    and f: "find (\<lambda>d. d_diagnosisId d = snd k) diagnoses = Some diag"
    and p: "drugs_get (d_cancerType diag) \<noteq> []"
    and m: "matching_drugs_for pvs (drugs_get (d_cancerType diag)) = []"
  shows "\<exists>it. filter (\<lambda>it. item_key it = k) items = [it] \<and> t_fallback it"
proof -
  from r have rg: "recommend_groups diagnoses now (group_by variant_key variants) g = Inr (items, g')"
    by (simp add: generate_therapy_recommendations_def)
  from recommend_groups_filter[OF group_by_distinct rg e] obtain g0 g1 where
    "recommend_group diagnoses now (k, pvs) g0 = Inr (filter (\<lambda>it. item_key it = k) items, g1)"
    by blast
  from recommend_group_no_match_Inr[OF this f p m] show ?thesis .
qed

lemma therapy_total:
  assumes "\<forall>d\<in>set diagnoses. d_diagnosisDate d < strftime now"
  shows "\<exists>items g'. generate_therapy_recommendations diagnoses variants now g = Inr (items, g')"
  using recommend_groups_total[OF assms] by (simp add: generate_therapy_recommendations_def)

lemma strptime_days: "strptime d = days d"
  by (simp add: strptime_def days_def)

lemma days_add: "days a + days b = days (a + b)"
  by (simp add: days_def distrib_right)

lemma followup_dates_loop_props:
  "followup_dates_loop n (days c) now g = (ds, g') \<Longrightarrow>
     \<exists>cs. ds = map days cs \<and> length cs \<le> n \<and> (\<forall>x\<in>set cs. c \<le> x \<and> days x < now) \<and>
          sorted_wrt (<) cs \<and>
          successively (\<lambda>a b. a + 60 \<le> b \<and> b \<le> a + 120) cs \<and>
          (cs \<noteq> [] \<longrightarrow> hd cs = c)"
proof (induction n arbitrary: c g ds g')
  case 0
  then show ?case by simp
next
  case (Suc n)
  show ?case
  proof (cases "days c < now")
    case False
    with Suc.prems show ?thesis by simp
  next
    case True
    obtain gap g1 where r: "randint 60 120 g = (gap, g1)" by (cases "randint 60 120 g")
    from randint_bounds[OF _ r] have gb: "60 \<le> gap" "gap \<le> 120" by simp_all
    obtain ds' g2 where l: "followup_dates_loop n (days (c + gap)) now g1 = (ds', g2)"
      by (cases "followup_dates_loop n (days (c + gap)) now g1")
    from Suc.prems True r l have ds: "ds = days c # ds'" by (simp add: days_add)
    from Suc.IH[OF l] obtain cs' where
      cs': "ds' = map days cs'" "length cs' \<le> n" "\<forall>x\<in>set cs'. c + gap \<le> x \<and> days x < now"
           "sorted_wrt (<) cs'" "successively (\<lambda>a b. a + 60 \<le> b \<and> b \<le> a + 120) cs'"
           "cs' \<noteq> [] \<longrightarrow> hd cs' = c + gap" by blast
    let ?cs = "c # cs'"
    have "ds = map days ?cs" using ds cs'(1) by simp
    moreover have "length ?cs \<le> Suc n" using cs'(2) by simp
    moreover have "\<forall>x\<in>set ?cs. c \<le> x \<and> days x < now" using cs'(3) gb True by auto
    moreover have "sorted_wrt (<) ?cs" using cs'(3,4) gb by auto
    moreover have "successively (\<lambda>a b. a + 60 \<le> b \<and> b \<le> a + 120) ?cs"
      using cs'(5,6) gb by (cases cs') (auto simp: successively_Cons)
    ultimately show ?thesis by (intro exI[of _ ?cs]) simp
  qed
qed

lemma followup_records_props:
  "followup_records pid len i (map days cs) g = (ps, g') \<Longrightarrow>
     map f_followUpDate ps = cs \<and>
     (\<forall>p\<in>set ps. f_patientId p = pid \<and> f_followUpDate p + 60 \<le> f_nextFollowUpDate p \<and>
                  f_nextFollowUpDate p \<le> f_followUpDate p + 120)"
proof (induction cs arbitrary: i g ps g')
  case Nil
  then show ?case by simp
next
  case (Cons c cs)
  obtain st g1 where s: "followup_status i len g = (st, g1)" by (cases "followup_status i len g")
  obtain gap g2 where r: "randint 60 120 g1 = (gap, g2)" by (cases "randint 60 120 g1")
  from randint_bounds[OF _ r] have gb: "60 \<le> gap" "gap \<le> 120" by simp_all
  obtain others g3 where l: "followup_records pid len (Suc i) (map days cs) g2 = (others, g3)"
    by (cases "followup_records pid len (Suc i) (map days cs) g2")
  from Cons.prems s r l have
    ps: "ps = \<lparr>f_patientId = pid, f_followUpDate = c, f_clinicalStatus = st,
                f_nextFollowUpDate = c + gap\<rparr> # others"
    by (simp add: strftime_days days_add)
  with Cons.IH[OF l] gb show ?case by simp
qed

lemma sort_key_Nil_iff: "sort_key f xs = [] \<longleftrightarrow> xs = []"
  by (metis length_sort list.size(3) length_0_conv)

lemma followups_for_patient_props:
  assumes "recs \<noteq> []"
  shows "\<exists>ps g'. followups_for_patient pid recs now g = Inr (ps, g') \<and> length ps \<le> 3 \<and>
           sorted_wrt (<) (map f_followUpDate ps) \<and>
           successively (\<lambda>a b. a + 60 \<le> b \<and> b \<le> a + 120) (map f_followUpDate ps) \<and>
           (\<forall>p\<in>set ps. f_patientId p = pid \<and>
              f_followUpDate p + 60 \<le> f_nextFollowUpDate p \<and>
              f_nextFollowUpDate p \<le> f_followUpDate p + 120 \<and>
              days (f_followUpDate p) < now \<and>
              Min (rc_recommendationDate ` set recs) + 30 \<le> f_followUpDate p)"
proof -
  obtain n g1 where r: "randint 1 3 g = (n, g1)" by (cases "randint 1 3 g")
  from randint_bounds[OF _ r] have n: "1 \<le> n" "n \<le> 3" by simp_all
  from assms obtain first rest where
    s: "sort_key rc_recommendationDate recs = first # rest"
    by (cases "sort_key rc_recommendationDate recs") (auto simp: sort_key_Nil_iff)
  have "sorted (map rc_recommendationDate (sort_key rc_recommendationDate recs))"
    by (rule sorted_sort_key)
  with s have "\<forall>x\<in>set (first # rest). rc_recommendationDate first \<le> rc_recommendationDate x"
    by auto
  moreover have "set (first # rest) = set recs" using s by (metis set_sort)
  ultimately have "\<forall>x\<in>set recs. rc_recommendationDate first \<le> rc_recommendationDate x"
    and "first \<in> set recs" by auto
  then have mn: "Min (rc_recommendationDate ` set recs) = rc_recommendationDate first"
    by (intro Min_eqI) auto
  obtain off g2 where o: "randint 30 60 g1 = (off, g2)" by (cases "randint 30 60 g1")
  from randint_bounds[OF _ o] have ob: "30 \<le> off" "off \<le> 60" by simp_all
  let ?c = "rc_recommendationDate first + off"
  obtain ds g3 where l: "followup_dates_loop (nat n) (days ?c) now g2 = (ds, g3)"
    by (cases "followup_dates_loop (nat n) (days ?c) now g2")
  from followup_dates_loop_props[OF l] obtain cs where
    cs: "ds = map days cs" "length cs \<le> nat n" "\<forall>x\<in>set cs. ?c \<le> x \<and> days x < now"
        "sorted_wrt (<) cs" "successively (\<lambda>a b. a + 60 \<le> b \<and> b \<le> a + 120) cs" by blast
  obtain ps g4 where f: "followup_records pid (length ds) 0 ds g3 = (ps, g4)"
    by (cases "followup_records pid (length ds) 0 ds g3")
  from followup_records_props[OF f[unfolded cs(1)]] have
    p: "map f_followUpDate ps = cs"
       "\<forall>p\<in>set ps. f_patientId p = pid \<and> f_followUpDate p + 60 \<le> f_nextFollowUpDate p \<and>
                  f_nextFollowUpDate p \<le> f_followUpDate p + 120" by simp_all
  from r s o l f have run: "followups_for_patient pid recs now g = Inr (ps, g4)"
    by (simp add: followups_for_patient_def strptime_days days_add)
  from p(1) cs(2) n have "length ps \<le> 3" by (metis length_map nat_le_iff order_trans of_nat_numeral)
  moreover from p(1) cs(3) ob mn have
    "\<forall>q\<in>set ps. days (f_followUpDate q) < now \<and>
        Min (rc_recommendationDate ` set recs) + 30 \<le> f_followUpDate q"
    by (metis (no_types, lifting) add_left_mono image_eqI list.set_map order_trans)
  ultimately show ?thesis using run p cs(4,5) by auto
qed

lemma strftime_minus_days: "strftime (now - days k) = strftime now - k"
  using strftime_plus_days[of now "- k"] by (simp add: days_def)

lemma call_api_POST_net: "snd (call_api ''POST'' net) = net_next net"
  by (simp add: call_api_def split: http_outcome.splits option.splits)

lemma wait_probe_exhausted:
  "(\<forall>i<n. \<forall>b. net i \<noteq> Response 200 b) \<Longrightarrow> wait_probe n net = (False, (net_next ^^ n) net)"
proof (induction n arbitrary: net)
  case 0
  then show ?case by simp
next
  case (Suc n)
  from Suc.prems have z: "\<forall>b. net 0 \<noteq> Response 200 b" by blast
  from Suc.prems have "\<forall>i<n. \<forall>b. net_next net i \<noteq> Response 200 b"
    by (simp add: net_next_def)
  from Suc.IH[OF this] have ih: "wait_probe n (net_next net) = (False, (net_next ^^ n) (net_next net))" .
  show ?case
  proof (cases "net 0")
    case (Response s b)
    with z have "s \<noteq> 200" by auto
    with Response ih show ?thesis by (simp add: funpow_swap1)
  next
    case RequestFailed
    with ih show ?thesis by (simp add: funpow_swap1)
  qed
qed

lemma generate_patients_loop_props:
  "generate_patients_loop n now st g net = (st', g', net') \<Longrightarrow>
     net' = (net_next ^^ n) net \<and>
     ps_patients st' = ps_patients st @ filter truthy (answers n net) \<and>
     ps_error_count st' = ps_error_count st +
        length (filter (\<lambda>r. \<not> (truthy r \<and> has_get r)) (answers n net)) \<and>
     (\<exists>new. ps_submitted st' = ps_submitted st @ new \<and> length new = n \<and>
        (\<forall>p\<in>set new. 365 * 30 \<le> strftime now - p_dateOfBirth p \<and>
                       strftime now - p_dateOfBirth p \<le> 365 * 80))"
proof (induction n arbitrary: st g net st' g' net')
  case 0
  then show ?case by simp
next
  case (Suc n)
  obtain gender g1 where c: "choose_gender g = (gender, g1)" by (cases "choose_gender g")
  obtain years g2 where y: "randint 30 80 g1 = (years, g2)" by (cases "randint 30 80 g1")
  from randint_bounds[OF _ y] have yb: "30 \<le> years" "years \<le> 80" by simp_all
  obtain response net1 where a: "call_api ''POST'' net = (response, net1)"
    by (cases "call_api ''POST'' net")
  with call_api_POST_net[of net] have n1: "net1 = net_next net" by simp
  let ?patient = "\<lparr>p_gender = gender, p_dateOfBirth = strftime (now - days (365 * years))\<rparr>"
  let ?st0 = "st\<lparr>ps_submitted := ps_submitted st @ [?patient]\<rparr>"
  let ?st1 = "(if truthy response then
                   (if has_get response
                    then ?st0\<lparr>ps_patients := ps_patients ?st0 @ [response]\<rparr>
                    else ?st0\<lparr>ps_patients := ps_patients ?st0 @ [response],
                             ps_error_count := ps_error_count ?st0 + 1\<rparr>)
                 else ?st0\<lparr>ps_error_count := ps_error_count ?st0 + 1\<rparr>)"
  from Suc.prems c y a have l: "generate_patients_loop n now ?st1 g2 net1 = (st', g', net')"
    by (simp add: Let_def)
  from Suc.IH[OF l] obtain new where
    ih: "net' = (net_next ^^ n) net1"
        "ps_patients st' = ps_patients ?st1 @ filter truthy (answers n net1)"
        "ps_error_count st' = ps_error_count ?st1 +
            length (filter (\<lambda>r. \<not> (truthy r \<and> has_get r)) (answers n net1))"
        "ps_submitted st' = ps_submitted ?st1 @ new" "length new = n"
        "\<forall>p\<in>set new. 365 * 30 \<le> strftime now - p_dateOfBirth p \<and>
                       strftime now - p_dateOfBirth p \<le> 365 * 80" by blast
  have s1: "ps_submitted ?st1 = ps_submitted st @ [?patient]" by simp
  have p1: "ps_patients ?st1 = ps_patients st @ filter truthy [response]" by simp
  have e1: "ps_error_count ?st1 = ps_error_count st +
              length (filter (\<lambda>r. \<not> (truthy r \<and> has_get r)) [response])" by simp
  have an: "answers (Suc n) net = response # answers n net1" using a n1 by simp
  have dob: "365 * 30 \<le> strftime now - p_dateOfBirth ?patient \<and>
             strftime now - p_dateOfBirth ?patient \<le> 365 * 80"
    using yb by (simp add: strftime_minus_days)
  have "net' = (net_next ^^ Suc n) net" using ih(1) n1 by (simp add: funpow_swap1)
  moreover have "ps_patients st' = ps_patients st @ filter truthy (answers (Suc n) net)"
    using ih(2) p1 an by simp
  moreover have "ps_error_count st' = ps_error_count st +
        length (filter (\<lambda>r. \<not> (truthy r \<and> has_get r)) (answers (Suc n) net))"
    using ih(3) e1 an by simp
  moreover have "ps_submitted st' = ps_submitted st @ (?patient # new) \<and>
        length (?patient # new) = Suc n \<and>
        (\<forall>p\<in>set (?patient # new). 365 * 30 \<le> strftime now - p_dateOfBirth p \<and>
                       strftime now - p_dateOfBirth p \<le> 365 * 80)"
    using ih(4,5,6) s1 dob by simp
  ultimately show ?case by blast
qed

lemma upper_POST: "upper ''POST'' = ''POST''"
  by (simp add: upper_def upper_char_def)

lemma m_call_api_POST_net: "snd (m_call_api jc ''POST'' net) = net_next net"
  by (simp add: m_call_api_def upper_POST split: http_outcome.splits option.splits)

lemma m_call_api_caught: "\<exists>r. fst (m_call_api True method net) = Inr r"
  by (simp add: m_call_api_def split: http_outcome.splits option.splits)

lemma m_dob_window:
  "generate_random_date (now - days (80 * 365)) (now - days (30 * 365)) g = r \<Longrightarrow>
     \<exists>dob g'. r = Inr (dob, g') \<and> 365 * 30 < strftime now - strftime dob \<and>
       strftime now - strftime dob \<le> 365 * 80"
proof -
  assume a: "generate_random_date (now - days (80 * 365)) (now - days (30 * 365)) g = r"
  have "(now - days (30 * 365)) - (now - days (80 * 365)) = days 18250"
    by (simp add: days_def)
  moreover have "days 18250 div day_us = 18250" using day_us_pos by (simp add: days_def)
  ultimately have w: "((now - days (30 * 365)) - (now - days (80 * 365))) div day_us = 18250"
    by simp
  let ?k = "int (g 0) mod 18250"
  have kb: "0 \<le> ?k" "?k < 18250" by simp_all
  from a w have r: "r = Inr (now - days (80 * 365) + days ?k, rng_next g)"
    by (simp add: generate_random_date_def Let_def randrange_def)
  have "strftime (now - days (80 * 365) + days ?k) = strftime now - 80 * 365 + ?k"
    by (simp add: strftime_plus_days strftime_minus_days)
  with kb r show ?thesis by auto
qed

lemma m_generate_patients_loop_props:
  "m_generate_patients_loop jc n now st g net = Inr (st', g', net') \<Longrightarrow>
     net' = (net_next ^^ n) net \<and>
     fst st' = fst st @ filter truthy (m_answers jc n net) \<and>
     (\<exists>new. snd st' = snd st @ new \<and> length new = n \<and>
        (\<forall>p\<in>set new. 365 * 30 < strftime now - p_dateOfBirth p \<and>
                       strftime now - p_dateOfBirth p \<le> 365 * 80))"
proof (induction n arbitrary: st g net st' g' net')
  case 0
  then show ?case by simp
next
  case (Suc n)
  obtain gender g1 where c: "choose_gender g = (gender, g1)" by (cases "choose_gender g")
  from m_dob_window[OF refl, of now g1] obtain dob g2 where
    d: "generate_random_date (now - days (80 * 365)) (now - days (30 * 365)) g1 = Inr (dob, g2)"
    and db: "365 * 30 < strftime now - strftime dob" "strftime now - strftime dob \<le> 365 * 80"
    by blast
  obtain res net1 where a: "m_call_api jc ''POST'' net = (res, net1)"
    by (cases "m_call_api jc ''POST'' net")
  with m_call_api_POST_net[of jc net] have n1: "net1 = net_next net" by simp
  from Suc.prems c d a obtain response where res: "res = Inr response"
    by (cases res) (auto simp: Let_def)
  let ?patient = "\<lparr>p_gender = gender, p_dateOfBirth = strftime dob\<rparr>"
  let ?st1 = "(if truthy response
                 then (fst st @ [response], snd st @ [?patient])
                 else (fst st, snd st @ [?patient]))"
  from Suc.prems c d a res have
    l: "m_generate_patients_loop jc n now ?st1 g2 net1 = Inr (st', g', net')"
    by (simp add: Let_def)
  from Suc.IH[OF l] obtain new where
    ih: "net' = (net_next ^^ n) net1"
        "fst st' = fst ?st1 @ filter truthy (m_answers jc n net1)"
        "snd st' = snd ?st1 @ new" "length new = n"
        "\<forall>p\<in>set new. 365 * 30 < strftime now - p_dateOfBirth p \<and>
                       strftime now - p_dateOfBirth p \<le> 365 * 80" by blast
  have an: "m_answers jc (Suc n) net = response # m_answers jc n net1"
    using a res n1 by simp
  have "net' = (net_next ^^ Suc n) net" using ih(1) n1 by (simp add: funpow_swap1)
  moreover have "fst st' = fst st @ filter truthy (m_answers jc (Suc n) net)"
    using ih(2) an by simp
  moreover have "snd st' = snd st @ (?patient # new) \<and> length (?patient # new) = Suc n \<and>
        (\<forall>p\<in>set (?patient # new). 365 * 30 < strftime now - p_dateOfBirth p \<and>
                       strftime now - p_dateOfBirth p \<le> 365 * 80)"
    using ih(3,4,5) db by simp
  ultimately show ?case by blast
qed

lemma m_generate_patients_loop_total:
  "\<exists>st' g' net'. m_generate_patients_loop True n now st g net = Inr (st', g', net')"
proof (induction n arbitrary: st g net)
  case 0
  then show ?case by simp
next
  case (Suc n)
  obtain gender g1 where c: "choose_gender g = (gender, g1)" by (cases "choose_gender g")
  from m_dob_window[OF refl, of now g1] obtain dob g2 where
    d: "generate_random_date (now - days (80 * 365)) (now - days (30 * 365)) g1 = Inr (dob, g2)"
    by blast
  from m_call_api_caught[of "''POST''" net] obtain response net1 where
    a: "m_call_api True ''POST'' net = (Inr response, net1)"
    by (cases "m_call_api True ''POST'' net") auto
  let ?patient = "\<lparr>p_gender = gender, p_dateOfBirth = strftime dob\<rparr>"
  let ?st1 = "(if truthy response
                 then (fst st @ [response], snd st @ [?patient])
                 else (fst st, snd st @ [?patient]))"
  from Suc[of ?st1 g2 net1] obtain st' g' net' where
    "m_generate_patients_loop True n now ?st1 g2 net1 = Inr (st', g', net')" by blast
  with c d a show ?case by (simp add: Let_def)
qed

lemma call_api_supported:
  assumes "method \<in> set [''GET'', ''POST'', ''PUT'', ''DELETE'']"
  shows "call_api method net =
     ((case net 0 of
         Response s b \<Rightarrow>
           (if 200 \<le> s \<and> s < 300 then (case b of Some j \<Rightarrow> j | None \<Rightarrow> bare_success)
            else JNull)
       | RequestFailed \<Rightarrow> JNull), net_next net)"
  using assms by (auto simp: call_api_def split: http_outcome.splits option.splits)

lemma m_call_api_supported:
  assumes "upper method \<in> set [''GET'', ''POST'', ''PUT'', ''DELETE'']"
  shows "m_call_api jc method net =
     ((case net 0 of
         Response s b \<Rightarrow>
           (if 400 \<le> s \<and> s < 600 then Inr JNull
            else if s = 204 then Inr JNull
            else (case b of Some j \<Rightarrow> Inr j
                  | None \<Rightarrow> if jc then Inr JNull else Inl ValueError))
       | RequestFailed \<Rightarrow> Inr JNull), net_next net)"
  using assms by (auto simp: m_call_api_def split: http_outcome.splits option.splits)

section \<open>The claims\<close>

text \<open>
  C2. Every job payload that names a normal sample names a sample of the diagnosis of
  its tumor sample: in the staged script the normal sample is drawn from the samples
  whose diagnosis identifier equals the tumor sample's, in the single-file generator
  it is taken from the tumor sample's own diagnosis group.
\<close>

theorem normal_sample_same_diagnosis:
  "(\<forall>sub\<in>set (generate_gatk_jobs samples g). \<forall>k. normalSampleId (payload sub) = Some k \<longrightarrow>
      (\<exists>n\<in>set samples. normal sub = Some n \<and> sampleId n = k \<and>
                         diagnosisId n = diagnosisId (tumor sub) \<and>
                         \<not> falsy_id (diagnosisId n)))
   \<and> (\<forall>sub\<in>set (m_generate_gatk_jobs msamples).
        m_normal sub \<in> set msamples \<and>
        m_normalSampleId (m_payload sub) = m_sampleId (m_normal sub) \<and>
        m_tumorSampleId (m_payload sub) = m_sampleId (m_tumor sub) \<and>
        m_diagnosisId (m_normal sub) = m_diagnosisId (m_tumor sub))"
proof (intro conjI ballI allI impI)
  fix sub k
  assume s: "sub \<in> set (generate_gatk_jobs samples g)" and k: "normalSampleId (payload sub) = Some k"
  from s obtain t where "(t, Inr sub) \<in> set (gatk_attempts samples g)"
    by (auto simp: generate_gatk_jobs_mem)
  from gatk_attempt_cases[OF this] have
    t: "tumor sub = t" and
    p: "normalSampleId (payload sub) = map_option sampleId (normal sub)" and
    c: "case normal sub of
           Some n \<Rightarrow> \<not> falsy_id (diagnosisId t) \<and>
                     n \<in> set (normal_candidates samples (diagnosisId t))
         | None \<Rightarrow> falsy_id (diagnosisId t) \<or>
                   normal_candidates samples (diagnosisId t) = []"
    by simp_all
  from p k obtain n where n: "normal sub = Some n" "sampleId n = k" by (cases "normal sub") auto
  with c have nf: "\<not> falsy_id (diagnosisId t)"
    and "n \<in> set (normal_candidates samples (diagnosisId t))" by simp_all
  then have "n \<in> set samples" "diagnosisId n = diagnosisId t"
    by (auto simp: normal_candidates_def)
  with n t nf show "\<exists>n\<in>set samples. normal sub = Some n \<and> sampleId n = k \<and>
                         diagnosisId n = diagnosisId (tumor sub) \<and>
                         \<not> falsy_id (diagnosisId n)" by auto
next
  fix sub assume "sub \<in> set (m_generate_gatk_jobs msamples)"
  from m_job_same_diagnosis[OF this]
  show "m_normal sub \<in> set msamples"
       "m_normalSampleId (m_payload sub) = m_sampleId (m_normal sub)"
       "m_tumorSampleId (m_payload sub) = m_sampleId (m_tumor sub)"
       "m_diagnosisId (m_normal sub) = m_diagnosisId (m_tumor sub)" by simp_all
qed

theorem normal_sample_same_diagnosis_witness:
  "map (\<lambda>sub. (tumorSampleId (payload sub), normalSampleId (payload sub),
               diagnosisId (tumor sub), map_option diagnosisId (normal sub)))
       (generate_gatk_jobs
          [\<lparr>sampleId = 1, sampleType = Some ''Tumor'', diagnosis = DiagnosisObject (Some 7)\<rparr>,
           \<lparr>sampleId = 2, sampleType = Some ''Normal'', diagnosis = DiagnosisObject (Some 8)\<rparr>,
           \<lparr>sampleId = 3, sampleType = Some ''Normal'', diagnosis = DiagnosisObject (Some 7)\<rparr>]
          (\<lambda>_. 0))
     = [(1, Some 3, Some 7, Some (Some 7))]
   \<and> map (\<lambda>sub. (m_tumorSampleId (m_payload sub), m_normalSampleId (m_payload sub),
                 m_diagnosisId (m_tumor sub), m_diagnosisId (m_normal sub)))
       (m_generate_gatk_jobs
          [\<lparr>m_sampleId = 1, m_sampleType = ''Tumor Tissue'', m_diagnosisId = 7\<rparr>,
           \<lparr>m_sampleId = 2, m_sampleType = ''Blood'', m_diagnosisId = 8\<rparr>,
           \<lparr>m_sampleId = 3, m_sampleType = ''Blood'', m_diagnosisId = 7\<rparr>])
     = [(1, 3, 7, 7)]"
  using normal_sample_same_diagnosis
    [of "[\<lparr>sampleId = 1, sampleType = Some ''Tumor'', diagnosis = DiagnosisObject (Some 7)\<rparr>,
           \<lparr>sampleId = 2, sampleType = Some ''Normal'', diagnosis = DiagnosisObject (Some 8)\<rparr>,
           \<lparr>sampleId = 3, sampleType = Some ''Normal'', diagnosis = DiagnosisObject (Some 7)\<rparr>]"
        "\<lambda>_. 0"
        "[\<lparr>m_sampleId = 1, m_sampleType = ''Tumor Tissue'', m_diagnosisId = 7\<rparr>,
           \<lparr>m_sampleId = 2, m_sampleType = ''Blood'', m_diagnosisId = 8\<rparr>,
           \<lparr>m_sampleId = 3, m_sampleType = ''Blood'', m_diagnosisId = 7\<rparr>]"]
  by (simp add: generate_gatk_jobs_def gatk_attempts_def is_tumor_type_def gatk_job_for_def
        find_normal_sample_eq falsy_id_def normal_candidates_def diagnosisId_def choice_def
        rng_next_def PIPELINE_VERSIONS_def CALLING_METHODS_def m_generate_gatk_jobs_def
        group_by_def m_jobs_for_diagnosis_def Let_def)

text \<open>
  C3 (as amended). In the staged script every sample of type Tumor, Metastasis or
  Recurrence gets one iteration, in order. The iteration raises AttributeError and sends
  nothing when the \<open>diagnosis\<close> value of the tumor sample is not an object, or when
  the tumor sample's diagnosis identifier is present and not zero and the \<open>diagnosis\<close>
  value of some Normal sample is not an object; in every other case it submits exactly
  one job. The job carries one of the Normal samples with the tumor sample's diagnosis
  identifier when that identifier is present and not zero and such a sample exists, and
  every such candidate can be drawn; otherwise the job is tumor-only. In the single-file
  generator a Tumor Tissue sample gets a job exactly when its diagnosis has a Blood
  sample, and the job carries the first Blood sample of that diagnosis.
\<close>

theorem gatk_jobs_pairing:
  "map fst (gatk_attempts samples g) = filter is_tumor_type samples
   \<and> (\<forall>(t, r)\<in>set (gatk_attempts samples g).
        (case r of
           Inl e \<Rightarrow>
             e = AttributeError \<and>
             (diagnosis t = NotAnObject \<or>
              \<not> falsy_id (diagnosisId t) \<and>
              (\<exists>s\<in>set samples. sampleType s = Some ''Normal'' \<and> diagnosis s = NotAnObject))
         | Inr sub \<Rightarrow>
             diagnosis t \<noteq> NotAnObject \<and>
             (falsy_id (diagnosisId t) \<or>
              \<not> (\<exists>s\<in>set samples. sampleType s = Some ''Normal'' \<and> diagnosis s = NotAnObject)) \<and>
             tumor sub = t \<and> tumorSampleId (payload sub) = sampleId t \<and>
             normalSampleId (payload sub) = map_option sampleId (normal sub) \<and>
             (case normal sub of
                Some n \<Rightarrow> \<not> falsy_id (diagnosisId t) \<and>
                          n \<in> set (normal_candidates samples (diagnosisId t))
              | None \<Rightarrow> falsy_id (diagnosisId t) \<or>
                        normal_candidates samples (diagnosisId t) = [])))
   \<and> (\<forall>sub. sub \<in> set (generate_gatk_jobs samples g) \<longleftrightarrow>
          (\<exists>t. (t, Inr sub) \<in> set (gatk_attempts samples g)))
   \<and> (\<forall>t c. diagnosis t \<noteq> NotAnObject \<and> \<not> falsy_id (diagnosisId t) \<and>
          \<not> (\<exists>s\<in>set samples. sampleType s = Some ''Normal'' \<and> diagnosis s = NotAnObject) \<and>
          c \<in> set (normal_candidates samples (diagnosisId t)) \<longrightarrow>
          (\<exists>g0. map_sum id fst (find_normal_sample samples t g0) = Inr (Some c)))
   \<and> (\<forall>t\<in>set msamples. m_sampleType t = ''Tumor Tissue'' \<longrightarrow>
         ((\<exists>sub\<in>set (m_generate_gatk_jobs msamples). m_tumor sub = t) \<longleftrightarrow>
          (\<exists>n\<in>set msamples. m_sampleType n = ''Blood'' \<and> m_diagnosisId n = m_diagnosisId t)))
   \<and> (\<forall>sub\<in>set (m_generate_gatk_jobs msamples).
         m_sampleType (m_tumor sub) = ''Tumor Tissue'' \<and>
         (\<exists>rest. filter (\<lambda>s. m_sampleType s = ''Blood'' \<and>
                               m_diagnosisId s = m_diagnosisId (m_tumor sub)) msamples
                  = m_normal sub # rest))"
proof (intro conjI)
  show "map fst (gatk_attempts samples g) = filter is_tumor_type samples"
    by (simp add: gatk_attempts_def gatk_jobs_loop_fst)
next
  show "\<forall>(t, r)\<in>set (gatk_attempts samples g).
        (case r of
           Inl e \<Rightarrow>
             e = AttributeError \<and>
             (diagnosis t = NotAnObject \<or>
              \<not> falsy_id (diagnosisId t) \<and>
              (\<exists>s\<in>set samples. sampleType s = Some ''Normal'' \<and> diagnosis s = NotAnObject))
         | Inr sub \<Rightarrow>
             diagnosis t \<noteq> NotAnObject \<and>
             (falsy_id (diagnosisId t) \<or>
              \<not> (\<exists>s\<in>set samples. sampleType s = Some ''Normal'' \<and> diagnosis s = NotAnObject)) \<and>
             tumor sub = t \<and> tumorSampleId (payload sub) = sampleId t \<and>
             normalSampleId (payload sub) = map_option sampleId (normal sub) \<and>
             (case normal sub of
                Some n \<Rightarrow> \<not> falsy_id (diagnosisId t) \<and>
                          n \<in> set (normal_candidates samples (diagnosisId t))
              | None \<Rightarrow> falsy_id (diagnosisId t) \<or>
                        normal_candidates samples (diagnosisId t) = []))"
    using gatk_attempt_cases[of _ _ samples g] by (auto split: prod.splits)
next
  show "\<forall>sub. sub \<in> set (generate_gatk_jobs samples g) \<longleftrightarrow>
          (\<exists>t. (t, Inr sub) \<in> set (gatk_attempts samples g))"
    by (simp add: generate_gatk_jobs_mem)
next
  show "\<forall>t c. diagnosis t \<noteq> NotAnObject \<and> \<not> falsy_id (diagnosisId t) \<and>
          \<not> (\<exists>s\<in>set samples. sampleType s = Some ''Normal'' \<and> diagnosis s = NotAnObject) \<and>
          c \<in> set (normal_candidates samples (diagnosisId t)) \<longrightarrow>
          (\<exists>g0. map_sum id fst (find_normal_sample samples t g0) = Inr (Some c))"
    using find_normal_sample_reach by blast
next
  show "\<forall>t\<in>set msamples. m_sampleType t = ''Tumor Tissue'' \<longrightarrow>
         ((\<exists>sub\<in>set (m_generate_gatk_jobs msamples). m_tumor sub = t) \<longleftrightarrow>
          (\<exists>n\<in>set msamples. m_sampleType n = ''Blood'' \<and> m_diagnosisId n = m_diagnosisId t))"
    using m_job_exists_iff by blast
next
  show "\<forall>sub\<in>set (m_generate_gatk_jobs msamples).
         m_sampleType (m_tumor sub) = ''Tumor Tissue'' \<and>
         (\<exists>rest. filter (\<lambda>s. m_sampleType s = ''Blood'' \<and>
                               m_diagnosisId s = m_diagnosisId (m_tumor sub)) msamples
                  = m_normal sub # rest)"
    using m_job_same_diagnosis by blast
qed

theorem gatk_jobs_pairing_witness:
  "map (\<lambda>(t, r). (sampleId t,
                  map_sum (\<lambda>e. e) (\<lambda>sub. (tumorSampleId (payload sub), normalSampleId (payload sub))) r))
       (gatk_attempts
          [\<lparr>sampleId = 1, sampleType = Some ''Tumor'', diagnosis = DiagnosisObject (Some 7)\<rparr>,
           \<lparr>sampleId = 2, sampleType = Some ''Metastasis'', diagnosis = NoDiagnosis\<rparr>,
           \<lparr>sampleId = 3, sampleType = Some ''Normal'', diagnosis = DiagnosisObject (Some 7)\<rparr>,
           \<lparr>sampleId = 4, sampleType = Some ''Recurrence'', diagnosis = NotAnObject\<rparr>]
          (\<lambda>_. 0))
     = [(1, Inr (1, Some 3)), (2, Inr (2, None)), (4, Inl AttributeError)]
   \<and> map (\<lambda>sub. (m_tumorSampleId (m_payload sub), m_normalSampleId (m_payload sub)))
       (m_generate_gatk_jobs
          [\<lparr>m_sampleId = 1, m_sampleType = ''Tumor Tissue'', m_diagnosisId = 7\<rparr>,
           \<lparr>m_sampleId = 2, m_sampleType = ''Tumor Tissue'', m_diagnosisId = 9\<rparr>,
           \<lparr>m_sampleId = 3, m_sampleType = ''Blood'', m_diagnosisId = 7\<rparr>])
     = [(1, 3)]"
  using gatk_jobs_pairing
    [of "[\<lparr>sampleId = 1, sampleType = Some ''Tumor'', diagnosis = DiagnosisObject (Some 7)\<rparr>,
           \<lparr>sampleId = 2, sampleType = Some ''Metastasis'', diagnosis = NoDiagnosis\<rparr>,
           \<lparr>sampleId = 3, sampleType = Some ''Normal'', diagnosis = DiagnosisObject (Some 7)\<rparr>,
           \<lparr>sampleId = 4, sampleType = Some ''Recurrence'', diagnosis = NotAnObject\<rparr>]"
        "\<lambda>_. 0"
        "[\<lparr>m_sampleId = 1, m_sampleType = ''Tumor Tissue'', m_diagnosisId = 7\<rparr>,
           \<lparr>m_sampleId = 2, m_sampleType = ''Tumor Tissue'', m_diagnosisId = 9\<rparr>,
           \<lparr>m_sampleId = 3, m_sampleType = ''Blood'', m_diagnosisId = 7\<rparr>]"]
  by (simp add: gatk_attempts_def is_tumor_type_def gatk_job_for_def
        find_normal_sample_eq falsy_id_def normal_candidates_def diagnosisId_def choice_def
        rng_next_def PIPELINE_VERSIONS_def CALLING_METHODS_def m_generate_gatk_jobs_def
        group_by_def m_jobs_for_diagnosis_def Let_def)

text \<open>
  The claim as stated fails on the single-file generator: a diagnosis with a Tumor
  Tissue sample and no Blood sample yields no job at all.
\<close>

theorem tumor_only_job_suppressed_counterexample:
  "m_sampleType \<lparr>m_sampleId = 1, m_sampleType = ''Tumor Tissue'', m_diagnosisId = 7\<rparr> = ''Tumor Tissue''
   \<and> m_generate_gatk_jobs [\<lparr>m_sampleId = 1, m_sampleType = ''Tumor Tissue'', m_diagnosisId = 7\<rparr>] = []"
  by (simp add: m_generate_gatk_jobs_def group_by_def m_jobs_for_diagnosis_def Let_def)





text \<open>
  C4. The single-file generator can emit a third sample of type Tumor Tissue whose
  tumor purity is 0.0: the purity of a third sample is drawn from 0.00 to 0.95.
\<close>

theorem third_sample_tumor_purity_zero:
  "map_sum id fst (samples_for_diagnosis
        \<lparr>d_diagnosisId = 1, d_patientId = 1, d_diagnosisDate = 100, d_cancerType = ''Melanoma''\<rparr>
        (days 200) (\<lambda>i. if i = 0 then 2 else 0))
     = Inr [\<lparr>sd_sampleType = ''Tumor Tissue'', sd_collectionDate = 100, sd_tumorPurity = 50\<rparr>,
            \<lparr>sd_sampleType = ''Blood'', sd_collectionDate = 100, sd_tumorPurity = 0\<rparr>,
            \<lparr>sd_sampleType = ''Tumor Tissue'', sd_collectionDate = 100, sd_tumorPurity = 0\<rparr>]"
proof -
  have n: "randint 1 3 (\<lambda>i. if i = 0 then 2 else 0) = (3, \<lambda>_. 0)"
    by (simp add: randint_def rng_next_def)
  have k: "samples_for_diagnosis
        \<lparr>d_diagnosisId = 1, d_patientId = 1, d_diagnosisDate = 100, d_cancerType = ''Melanoma''\<rparr>
        (days 200) (\<lambda>i. if i = 0 then 2 else 0)
      = samples_loop
        \<lparr>d_diagnosisId = 1, d_patientId = 1, d_diagnosisDate = 100, d_cancerType = ''Melanoma''\<rparr>
        (days 200) 0 (Suc (Suc (Suc 0))) (\<lambda>_. 0)"
    by (simp add: samples_for_diagnosis_def n numeral_3_eq_3)
  have s0: "sample_type_purity 0 (\<lambda>_. 0) = ((''Tumor Tissue'', 50), \<lambda>_. 0)"
    by (simp add: sample_type_purity_def uniform_round2_def randint_def rng_next_def)
  have s1: "sample_type_purity (Suc 0) (\<lambda>_. 0) = ((''Blood'', 0), \<lambda>_. 0)"
    by (simp add: sample_type_purity_def)
  have s2: "sample_type_purity (Suc (Suc 0)) (\<lambda>_. 0) = ((''Tumor Tissue'', 0), \<lambda>_. 0)"
    by (simp add: sample_type_purity_def uniform_round2_def randint_def rng_next_def choice_def
          SAMPLE_TYPES_def)
  show ?thesis
    by (simp add: k sample_payload_days s0 s1 s2 rng_next_def)
qed

text \<open>
  C1. Every variant a therapy recommendation refers to is a variant of the
  recommendation's own patient and diagnosis whose gene symbol occurs in the gene field
  of the recommended drug; this holds for a recommendation of the no-match fallback as
  well. A patient and diagnosis group whose variants match no drug of the cancer type
  gets exactly one recommendation, the fallback one; every cancer type of
  \<open>CANCER_TYPES\<close> has drugs to pick from. The run succeeds whenever every
  diagnosis date lies before today.
\<close>

theorem therapy_variants_match_drug:
  "(\<forall>items g'. generate_therapy_recommendations diagnoses variants now g = Inr (items, g') \<longrightarrow>
      (\<forall>it\<in>set items.
         (\<forall>v\<in>set (t_linked it). str_in (v_geneSymbol v) (dr_gene (t_drug it)) \<and>
            v \<in> set variants \<and> variant_key v = item_key it) \<and>
         r_variantIds (t_payload it) = map variant_id (t_linked it) \<and>
         r_drugName (t_payload it) = dr_name (t_drug it)) \<and>
      (\<forall>k pvs diag.
         (k, pvs) \<in> set (group_by variant_key variants) \<and>
         find (\<lambda>d. d_diagnosisId d = snd k) diagnoses = Some diag \<and>
         drugs_get (d_cancerType diag) \<noteq> [] \<and>
         matching_drugs_for pvs (drugs_get (d_cancerType diag)) = [] \<longrightarrow>
         (\<exists>it. filter (\<lambda>it. item_key it = k) items = [it] \<and> t_fallback it)))
   \<and> ((\<forall>d\<in>set diagnoses. d_diagnosisDate d < strftime now) \<longrightarrow>
        (\<exists>items g'. generate_therapy_recommendations diagnoses variants now g = Inr (items, g')))
   \<and> (\<forall>ct\<in>set (map fst CANCER_TYPES). drugs_get ct \<noteq> [])"
proof -
  have a: "\<forall>it\<in>set items.
         (\<forall>v\<in>set (t_linked it). str_in (v_geneSymbol v) (dr_gene (t_drug it)) \<and>
            v \<in> set variants \<and> variant_key v = item_key it) \<and>
         r_variantIds (t_payload it) = map variant_id (t_linked it) \<and>
         r_drugName (t_payload it) = dr_name (t_drug it)"
    if "generate_therapy_recommendations diagnoses variants now g = Inr (items, g')" for items g'
    using therapy_items_props[OF that] by blast
  have b: "\<forall>k pvs diag.
         (k, pvs) \<in> set (group_by variant_key variants) \<and>
         find (\<lambda>d. d_diagnosisId d = snd k) diagnoses = Some diag \<and>
         drugs_get (d_cancerType diag) \<noteq> [] \<and>
         matching_drugs_for pvs (drugs_get (d_cancerType diag)) = [] \<longrightarrow>
         (\<exists>it. filter (\<lambda>it. item_key it = k) items = [it] \<and> t_fallback it)"
    if "generate_therapy_recommendations diagnoses variants now g = Inr (items, g')" for items g'
    using therapy_fallback_once[OF that] by blast
  have c: "(\<forall>d\<in>set diagnoses. d_diagnosisDate d < strftime now) \<longrightarrow>
        (\<exists>items g'. generate_therapy_recommendations diagnoses variants now g = Inr (items, g'))"
    using therapy_total by blast
  from a b c drugs_for_every_cancer_type show ?thesis by blast
qed

theorem therapy_variants_match_drug_witness:
  "map_sum id (map (\<lambda>it. (r_drugName (t_payload it), r_variantIds (t_payload it),
                            map v_geneSymbol (t_linked it), dr_gene (t_drug it), t_fallback it)) \<circ> fst)
     (generate_therapy_recommendations
        [\<lparr>d_diagnosisId = 10, d_patientId = 1, d_diagnosisDate = 100, d_cancerType = ''Melanoma''\<rparr>,
         \<lparr>d_diagnosisId = 20, d_patientId = 2, d_diagnosisDate = 100, d_cancerType = ''Melanoma''\<rparr>]
        [\<lparr>v_variantId = Some 11, v_geneSymbol = ''BRAF'', v_diagnosis =
            \<lparr>d_diagnosisId = 10, d_patientId = 1, d_diagnosisDate = 100, d_cancerType = ''Melanoma''\<rparr>\<rparr>,
         \<lparr>v_variantId = Some 21, v_geneSymbol = ''NRAS'', v_diagnosis =
            \<lparr>d_diagnosisId = 20, d_patientId = 2, d_diagnosisDate = 100, d_cancerType = ''Melanoma''\<rparr>\<rparr>]
        (days 200) (\<lambda>_. 0))
   = Inr [(''Dabrafenib + Trametinib'', [11], [''BRAF''], ''BRAF'', False),
          (''Dabrafenib + Trametinib'', [], [], ''BRAF'', True)]"
proof -
  let ?D1 = "\<lparr>d_diagnosisId = 10, d_patientId = 1, d_diagnosisDate = 100, d_cancerType = ''Melanoma''\<rparr>"
  let ?D2 = "\<lparr>d_diagnosisId = 20, d_patientId = 2, d_diagnosisDate = 100, d_cancerType = ''Melanoma''\<rparr>"
  let ?V1 = "\<lparr>v_variantId = Some 11, v_geneSymbol = ''BRAF'', v_diagnosis = ?D1\<rparr>"
  let ?V2 = "\<lparr>v_variantId = Some 21, v_geneSymbol = ''NRAS'', v_diagnosis = ?D2\<rparr>"
  let ?P = "[\<lparr>dr_name = ''Dabrafenib + Trametinib'', dr_dosage = ''150mg twice daily + 2mg daily'',
         dr_gene = ''BRAF''\<rparr>,
        \<lparr>dr_name = ''Pembrolizumab'', dr_dosage = ''200mg every 3 weeks'', dr_gene = ''PD-L1''\<rparr>,
        \<lparr>dr_name = ''Nivolumab + Ipilimumab'', dr_dosage = ''3mg/kg + 1mg/kg every 3 weeks'',
         dr_gene = ''PD-L1/CTLA-4''\<rparr>]"
  have pot: "drugs_get ''Melanoma'' = ?P"
    by (simp add: drugs_get_def DRUGS_def)
  have grp: "group_by variant_key [?V1, ?V2] = [((1, 10), [?V1]), ((2, 20), [?V2])]"
    by (simp add: group_by_def variant_key_def)
  have rn: "rng_next (\<lambda>_. 0) = (\<lambda>_. 0)" by (simp add: rng_next_def)
  have ev: "choice EVIDENCE_LEVELS (\<lambda>_. 0) = Some (''Level 1A'', \<lambda>_. 0)"
    by (simp add: choice_def EVIDENCE_LEVELS_def rn)
  have m1: "matching_drugs_for [?V1] ?P = [\<lparr>dr_name = ''Dabrafenib + Trametinib'', dr_dosage = ''150mg twice daily + 2mg daily'', dr_gene = ''BRAF''\<rparr>]"
    by (simp add: matching_drugs_for_def)
  have m2: "matching_drugs_for [?V2] ?P = []"
    by (simp add: matching_drugs_for_def)
  have c: "choice ?P (\<lambda>_. 0) = Some (\<lparr>dr_name = ''Dabrafenib + Trametinib'', dr_dosage = ''150mg twice daily + 2mg daily'', dr_gene = ''BRAF''\<rparr>, \<lambda>_. 0)"
    by (simp add: choice_def rn)
  have g1: "map_sum id (map (\<lambda>it. (r_drugName (t_payload it), r_variantIds (t_payload it),
                            map v_geneSymbol (t_linked it), dr_gene (t_drug it), t_fallback it)) \<circ> fst)
     (generate_therapy_recommendations [?D1, ?D2] [?V1, ?V2] (days 200) (\<lambda>_. 0))
   = Inr [(''Dabrafenib + Trametinib'', [11], [''BRAF''], ''BRAF'', False),
          (''Dabrafenib + Trametinib'', [], [], ''BRAF'', True)]"
    by (simp add: generate_therapy_recommendations_def grp recommend_group_def m1 m2 c
          generate_random_date_days rn ev strftime_strptime_days variant_id_def Let_def pot)
  from therapy_variants_match_drug[of "[?D1, ?D2]" "[?V1, ?V2]" "days 200" "\<lambda>_. 0"] g1
  show ?thesis by simp
qed

text \<open>
  C10. A recommendation of the no-match fallback carries an empty \<open>variantIds\<close> list:
  the list is filtered by gene match against the drug picked at random, and no variant
  of the group matches any drug of the cancer type.
\<close>

theorem fallback_recommendation_links_no_variant:
  "generate_therapy_recommendations diagnoses variants now g = Inr (items, g') \<Longrightarrow>
   it \<in> set items \<Longrightarrow> t_fallback it \<Longrightarrow>
     r_variantIds (t_payload it) = [] \<and>
     (\<exists>v\<in>set variants. variant_key v = item_key it)"
proof -
  assume r: "generate_therapy_recommendations diagnoses variants now g = Inr (items, g')"
    and i: "it \<in> set items" and fb: "t_fallback it"
  from therapy_items_props[OF r i] fb have e: "r_variantIds (t_payload it) = []" by blast
  from r have rg: "recommend_groups diagnoses now (group_by variant_key variants) g = Inr (items, g')"
    by (simp add: generate_therapy_recommendations_def)
  from recommend_groups_mem[OF rg i] obtain k pvs g0 its g1 where
    en: "(k, pvs) \<in> set (group_by variant_key variants)" and
    c: "recommend_group diagnoses now (k, pvs) g0 = Inr (its, g1)" and m: "it \<in> set its"
    by (metis surj_pair)
  from recommend_group_Inr[OF c] m have k: "item_key it = k" by (simp add: item_key_def)
  from en have "k \<in> fst ` set (group_by variant_key variants)" by force
  then have "k \<in> variant_key ` set variants" by (simp add: group_by_keys)
  with k have "\<exists>v\<in>set variants. variant_key v = item_key it" by auto
  with e show ?thesis by simp
qed

theorem fallback_recommendation_links_no_variant_witness:
  "map_sum id (map (\<lambda>it. (r_drugName (t_payload it), r_variantIds (t_payload it), t_fallback it)) \<circ> fst)
     (generate_therapy_recommendations
        [\<lparr>d_diagnosisId = 20, d_patientId = 2, d_diagnosisDate = 100, d_cancerType = ''Melanoma''\<rparr>]
        [\<lparr>v_variantId = Some 21, v_geneSymbol = ''NRAS'', v_diagnosis =
            \<lparr>d_diagnosisId = 20, d_patientId = 2, d_diagnosisDate = 100, d_cancerType = ''Melanoma''\<rparr>\<rparr>]
        (days 200) (\<lambda>_. 0))
   = Inr [(''Dabrafenib + Trametinib'', [], True)]"
proof -
  let ?D2 = "\<lparr>d_diagnosisId = 20, d_patientId = 2, d_diagnosisDate = 100, d_cancerType = ''Melanoma''\<rparr>"
  let ?V2 = "\<lparr>v_variantId = Some 21, v_geneSymbol = ''NRAS'', v_diagnosis = ?D2\<rparr>"
  let ?B = "\<lparr>dr_name = ''Dabrafenib + Trametinib'', dr_dosage = ''150mg twice daily + 2mg daily'',
         dr_gene = ''BRAF''\<rparr>"
  let ?it = "\<lparr>t_drug = ?B, t_linked = [], t_fallback = True,
             t_payload = \<lparr>r_patientId = 2, r_diagnosisId = 20, r_drugName = ''Dabrafenib + Trametinib'',
               r_dosage = ''150mg twice daily + 2mg daily'', r_recommendationDate = 100,
               r_evidenceLevel = ''Level 1A'', r_variantIds = []\<rparr>\<rparr>"
  let ?P = "[\<lparr>dr_name = ''Dabrafenib + Trametinib'', dr_dosage = ''150mg twice daily + 2mg daily'',
         dr_gene = ''BRAF''\<rparr>,
        \<lparr>dr_name = ''Pembrolizumab'', dr_dosage = ''200mg every 3 weeks'', dr_gene = ''PD-L1''\<rparr>,
        \<lparr>dr_name = ''Nivolumab + Ipilimumab'', dr_dosage = ''3mg/kg + 1mg/kg every 3 weeks'',
         dr_gene = ''PD-L1/CTLA-4''\<rparr>]"
  have pot: "drugs_get ''Melanoma'' = ?P"
    by (simp add: drugs_get_def DRUGS_def)
  have grp: "group_by variant_key [?V2] = [((2, 20), [?V2])]"
    by (simp add: group_by_def variant_key_def)
  have rn: "rng_next (\<lambda>_. 0) = (\<lambda>_. 0)" by (simp add: rng_next_def)
  have ev: "choice EVIDENCE_LEVELS (\<lambda>_. 0) = Some (''Level 1A'', \<lambda>_. 0)"
    by (simp add: choice_def EVIDENCE_LEVELS_def rn)
  have m2: "matching_drugs_for [?V2] ?P = []"
    by (simp add: matching_drugs_for_def)
  have c: "choice ?P (\<lambda>_. 0) = Some (\<lparr>dr_name = ''Dabrafenib + Trametinib'', dr_dosage = ''150mg twice daily + 2mg daily'', dr_gene = ''BRAF''\<rparr>, \<lambda>_. 0)"
    by (simp add: choice_def rn)
  have run: "generate_therapy_recommendations [?D2] [?V2] (days 200) (\<lambda>_. 0) = Inr ([?it], \<lambda>_. 0)"
    by (simp add: generate_therapy_recommendations_def grp recommend_group_def m2 c
          generate_random_date_days rn ev strftime_strptime_days Let_def pot)
  from fallback_recommendation_links_no_variant[OF run, of ?it] run
  show ?thesis by simp
qed

text \<open>
  C5 (as amended). The follow-up dates of a patient are strictly increasing, each 60 to
  120 days after the one before, and every record's next-follow-up date lies 60 to 120
  days after its own follow-up date. At most three records are built, all dated
  before now and at least 30 days after the patient's earliest recommendation. The
  next-follow-up date is an independent draw and is not tied to the date of the
  following record.
\<close>

theorem followup_dates_increasing:
  "recs \<noteq> [] \<longrightarrow>
     (\<exists>ps g'. followups_for_patient pid recs now g = Inr (ps, g') \<and> length ps \<le> 3 \<and>
        sorted_wrt (<) (map f_followUpDate ps) \<and>
        successively (\<lambda>a b. a + 60 \<le> b \<and> b \<le> a + 120) (map f_followUpDate ps) \<and>
        (\<forall>p\<in>set ps. f_patientId p = pid \<and>
           f_followUpDate p + 60 \<le> f_nextFollowUpDate p \<and>
           f_nextFollowUpDate p \<le> f_followUpDate p + 120 \<and>
           days (f_followUpDate p) < now \<and>
           Min (rc_recommendationDate ` set recs) + 30 \<le> f_followUpDate p))"
  using followups_for_patient_props by blast

theorem followup_dates_increasing_witness:
  "map_sum id (map (\<lambda>p. (f_followUpDate p, f_nextFollowUpDate p)) \<circ> fst)
     (followups_for_patient 1 [\<lparr>rc_patient_id = 1, rc_recommendationDate = 100\<rparr>]
        (days 1000) (nth [1, 0, 0, 0, 0, 0, 0, 0]))
   = Inr [(130, 190), (190, 250)]"
proof -
  have n: "randint 1 3 (nth [1, 0, 0, 0, 0, 0, 0, 0]) = (2, nth [0, 0, 0, 0, 0, 0, 0])"
    by (simp add: randint_def rng_next_def)
  have run: "followups_for_patient 1 [\<lparr>rc_patient_id = 1, rc_recommendationDate = 100\<rparr>]
        (days 1000) (nth [1, 0, 0, 0, 0, 0, 0, 0])
      = Inr (followup_records 1 2 0 [days 130, days 190] (nth [0, 0, 0, 0]))"
    by (simp add: followups_for_patient_def n numeral_2_eq_2 randint_def rng_next_def
          strptime_days days_add days_def day_us_def)
  have "followup_records 1 2 0 [days 130, days 190] (nth [0, 0, 0, 0])
      = ([\<lparr>f_patientId = 1, f_followUpDate = 130, f_clinicalStatus = ''Partial Response'',
            f_nextFollowUpDate = 190\<rparr>,
          \<lparr>f_patientId = 1, f_followUpDate = 190, f_clinicalStatus = ''Partial Response'',
            f_nextFollowUpDate = 250\<rparr>], nth [])"
    by (simp add: followup_status_def choice_def randint_def rng_next_def strftime_days days_add)
  with run followup_dates_increasing
    [of "[\<lparr>rc_patient_id = 1, rc_recommendationDate = 100\<rparr>]" 1 "days 1000"
        "nth [1, 0, 0, 0, 0, 0, 0, 0]"]
  show ?thesis by simp
qed

text \<open>
  The claim as stated fails: with a gap of 60 days to the second record and a draw of
  120 days for the next-follow-up date, the first record's next-follow-up date (day
  250) is later than the second record's follow-up date (day 190).
\<close>

theorem next_followup_after_following_record_counterexample:
  "map_sum id (map (\<lambda>p. (f_followUpDate p, f_nextFollowUpDate p)) \<circ> fst)
     (followups_for_patient 1 [\<lparr>rc_patient_id = 1, rc_recommendationDate = 100\<rparr>]
        (days 1000) (nth [1, 0, 0, 0, 0, 60, 0, 0]))
   = Inr [(130, 250), (190, 250)]"
proof -
  have n: "randint 1 3 (nth [1, 0, 0, 0, 0, 60, 0, 0]) = (2, nth [0, 0, 0, 0, 60, 0, 0])"
    by (simp add: randint_def rng_next_def)
  have run: "followups_for_patient 1 [\<lparr>rc_patient_id = 1, rc_recommendationDate = 100\<rparr>]
        (days 1000) (nth [1, 0, 0, 0, 0, 60, 0, 0])
      = Inr (followup_records 1 2 0 [days 130, days 190] (nth [0, 60, 0, 0]))"
    by (simp add: followups_for_patient_def n numeral_2_eq_2 randint_def rng_next_def
          strptime_days days_add days_def day_us_def)
  have "followup_records 1 2 0 [days 130, days 190] (nth [0, 60, 0, 0])
      = ([\<lparr>f_patientId = 1, f_followUpDate = 130, f_clinicalStatus = ''Partial Response'',
            f_nextFollowUpDate = 250\<rparr>,
          \<lparr>f_patientId = 1, f_followUpDate = 190, f_clinicalStatus = ''Partial Response'',
            f_nextFollowUpDate = 250\<rparr>], nth [])"
    by (simp add: followup_status_def choice_def randint_def rng_next_def strftime_days days_add)
  with run show ?thesis by simp
qed

text \<open>
  C9 (as amended). Every patient payload carries a date of birth that lies at least
  30 times 365 days and at most 80 times 365 days before the day of generation: the
  staged script goes back \<open>365 * random.randint(30, 80)\<close> days, the single-file
  generator draws a day in the window that opens 80 times 365 days and closes 30 times
  365 days before now, its last day excluded. Every requested patient payload is built.
  These bounds are in days, not in calendar years: a patient can be 29 years old.
\<close>

theorem patient_birth_window_in_days:
  "(\<forall>st g' net'. generate_patients count now g net = (st, g', net') \<longrightarrow>
       length (ps_submitted st) = count \<and>
       (\<forall>p\<in>set (ps_submitted st).
          365 * 30 \<le> strftime now - p_dateOfBirth p \<and>
          strftime now - p_dateOfBirth p \<le> 365 * 80))
   \<and> (\<forall>st g' net'. m_generate_patients jc count now g net = Inr (st, g', net') \<longrightarrow>
       length (snd st) = count \<and>
       (\<forall>p\<in>set (snd st).
          365 * 30 < strftime now - p_dateOfBirth p \<and>
          strftime now - p_dateOfBirth p \<le> 365 * 80))
   \<and> (\<exists>st g' net'. m_generate_patients True count now g net = Inr (st, g', net'))"
proof (intro conjI allI impI)
  fix st g' net'
  assume "generate_patients count now g net = (st, g', net')"
  then have "generate_patients_loop count now
       \<lparr>ps_patients = [], ps_error_count = 0, ps_submitted = []\<rparr> g net = (st, g', net')"
    by (simp add: generate_patients_def)
  from generate_patients_loop_props[OF this] obtain new where
    "ps_submitted st = new" "length new = count"
    "\<forall>p\<in>set new. 365 * 30 \<le> strftime now - p_dateOfBirth p \<and>
                       strftime now - p_dateOfBirth p \<le> 365 * 80" by auto
  then show "length (ps_submitted st) = count"
    "\<forall>p\<in>set (ps_submitted st).
          365 * 30 \<le> strftime now - p_dateOfBirth p \<and>
          strftime now - p_dateOfBirth p \<le> 365 * 80" by simp_all
next
  fix st g' net'
  assume "m_generate_patients jc count now g net = Inr (st, g', net')"
  then have "m_generate_patients_loop jc count now ([], []) g net = Inr (st, g', net')"
    by (simp add: m_generate_patients_def)
  from m_generate_patients_loop_props[OF this] obtain new where
    "snd st = new" "length new = count"
    "\<forall>p\<in>set new. 365 * 30 < strftime now - p_dateOfBirth p \<and>
                       strftime now - p_dateOfBirth p \<le> 365 * 80" by auto
  then show "length (snd st) = count"
    "\<forall>p\<in>set (snd st).
          365 * 30 < strftime now - p_dateOfBirth p \<and>
          strftime now - p_dateOfBirth p \<le> 365 * 80" by simp_all
next
  show "\<exists>st g' net'. m_generate_patients True count now g net = Inr (st, g', net')"
    using m_generate_patients_loop_total by (simp add: m_generate_patients_def)
qed

theorem patient_birth_window_in_days_witness:
  "map p_dateOfBirth (ps_submitted (fst (generate_patients 1 (days 40000) (\<lambda>_. 0) (\<lambda>_. RequestFailed))))
     = [40000 - 365 * 30]
   \<and> map_sum id (map p_dateOfBirth \<circ> snd \<circ> fst)
        (m_generate_patients True 1 (days 40000) (\<lambda>_. 0) (\<lambda>_. RequestFailed))
     = Inr [40000 - 365 * 80]"
proof -
  have rn: "rng_next (\<lambda>_. 0) = (\<lambda>_. 0)" by (simp add: rng_next_def)
  have a: "map p_dateOfBirth (ps_submitted (fst (generate_patients 1 (days 40000) (\<lambda>_. 0) (\<lambda>_. RequestFailed))))
     = [40000 - 365 * 30]"
    by (simp add: generate_patients_def choose_gender_def choice_def randint_def rn call_api_def
          strftime_minus_days strftime_days Let_def)
  have w: "generate_random_date (days 40000 - days (80 * 365)) (days 40000 - days (30 * 365)) (\<lambda>_. 0)
      = Inr (days (40000 - 365 * 80), \<lambda>_. 0)"
    by (simp add: generate_random_date_def randrange_def rn days_def day_us_def Let_def)
  have b: "map_sum id (map p_dateOfBirth \<circ> snd \<circ> fst)
        (m_generate_patients True 1 (days 40000) (\<lambda>_. 0) (\<lambda>_. RequestFailed))
     = Inr [40000 - 365 * 80]"
    using w
    by (simp add: m_generate_patients_def choose_gender_def choice_def rn m_call_api_def
          upper_POST strftime_days Let_def)
  from patient_birth_window_in_days
    [of 1 "days 40000" "\<lambda>_. 0" "\<lambda>_. RequestFailed" True] a b
  show ?thesis by simp
qed

text \<open>
  The claim as stated fails: 30 times 365 days are 7 or 8 days short of 30 calendar
  years. Run on 2026-11-04, the staged script with the draw 30 sends the date of birth
  1996-11-11, and the single-file generator with the last day of its window sends
  1996-11-10; both are later than 1996-11-04, so the patient is 29 years old on the day
  of generation.
\<close>

theorem patient_younger_than_30_counterexample:
  "map p_dateOfBirth
       (ps_submitted (fst (generate_patients 1 (days (ymd2ord 2026 11 4)) (\<lambda>_. 0) (\<lambda>_. RequestFailed))))
     = [ymd2ord 1996 11 11]
   \<and> map_sum id (map p_dateOfBirth \<circ> snd \<circ> fst)
        (m_generate_patients True 1 (days (ymd2ord 2026 11 4)) (\<lambda>_. 18249) (\<lambda>_. RequestFailed))
     = Inr [ymd2ord 1996 11 10]
   \<and> ymd2ord 1996 11 4 < ymd2ord 1996 11 10
   \<and> ymd2ord 1996 11 4 < ymd2ord 1996 11 11"
proof -
  have d: "ymd2ord 2026 11 4 = 739924" "ymd2ord 1996 11 11 = 728974"
          "ymd2ord 1996 11 10 = 728973" "ymd2ord 1996 11 4 = 728967"
    by (simp_all add: ymd2ord_def days_before_year_def days_before_month_def
          DAYS_BEFORE_MONTH_def is_leap_def Let_def)
  have r0: "rng_next (\<lambda>_. 0) = (\<lambda>_. 0)" by (simp add: rng_next_def)
  have r1: "rng_next (\<lambda>_. 18249) = (\<lambda>_. 18249)" by (simp add: rng_next_def)
  have a: "map p_dateOfBirth
       (ps_submitted (fst (generate_patients 1 (days 739924) (\<lambda>_. 0) (\<lambda>_. RequestFailed))))
     = [728974]"
    by (simp add: generate_patients_def choose_gender_def choice_def randint_def r0 call_api_def
          strftime_minus_days strftime_days Let_def)
  have w: "generate_random_date (days 739924 - days (80 * 365)) (days 739924 - days (30 * 365))
             (\<lambda>_. 18249) = Inr (days 728973, \<lambda>_. 18249)"
    by (simp add: generate_random_date_def randrange_def r1 days_def day_us_def Let_def)
  have b: "map_sum id (map p_dateOfBirth \<circ> snd \<circ> fst)
        (m_generate_patients True 1 (days 739924) (\<lambda>_. 18249) (\<lambda>_. RequestFailed))
     = Inr [728973]"
    using w
    by (simp add: m_generate_patients_def choose_gender_def choice_def r1 m_call_api_def
          upper_POST strftime_days Let_def)
  from a b show ?thesis by (simp add: d)
qed

text \<open>
  C7. When no probe of the readiness check is answered with status 200, the run ends
  before any submission: the staged script returns exit code 1 after its 10 probes,
  having sent no payload and written no file; the single-file generator returns after
  its 30 probes without calling any generator.
\<close>

theorem readiness_failure_aborts_run:
  "((\<forall>i<10. \<forall>b. net i \<noteq> Response 200 b) \<longrightarrow>
      main count now g net =
        (\<lparr>exit_code = 1, submitted = [], patients_file = None\<rparr>, (net_next ^^ 10) net))
   \<and> ((\<forall>i<30. \<forall>b. net i \<noteq> Response 200 b) \<longrightarrow>
        m_main stages net = (None, (net_next ^^ 30) net))"
proof (intro conjI impI)
  assume "\<forall>i<10. \<forall>b. net i \<noteq> Response 200 b"
  from wait_probe_exhausted[OF this]
  show "main count now g net =
        (\<lparr>exit_code = 1, submitted = [], patients_file = None\<rparr>, (net_next ^^ 10) net)"
    by (simp add: main_def wait_for_application_def)
next
  assume "\<forall>i<30. \<forall>b. net i \<noteq> Response 200 b"
  from wait_probe_exhausted[OF this]
  show "m_main stages net = (None, (net_next ^^ 30) net)"
    by (simp add: m_main_def m_wait_for_application_def)
qed

theorem readiness_failure_aborts_run_witness:
  "fst (main 3 (days 40000) (\<lambda>_. 0) (\<lambda>_. Response 503 None))
     = \<lparr>exit_code = 1, submitted = [], patients_file = None\<rparr>
   \<and> fst (m_main (m_generate_patients True 3 (days 40000) (\<lambda>_. 0)) (\<lambda>_. RequestFailed)) = None"
proof -
  from readiness_failure_aborts_run
    [of "\<lambda>_. Response 503 None" 3 "days 40000" "\<lambda>_. 0" "\<lambda>_. ()"]
  have "main 3 (days 40000) (\<lambda>_. 0) (\<lambda>_. Response 503 None) =
        (\<lparr>exit_code = 1, submitted = [], patients_file = None\<rparr>,
         (net_next ^^ 10) (\<lambda>_. Response 503 None))" by simp
  moreover from readiness_failure_aborts_run
    [of "\<lambda>_. RequestFailed" 3 "days 40000" "\<lambda>_. 0"
        "m_generate_patients True 3 (days 40000) (\<lambda>_. 0)"]
  have "m_main (m_generate_patients True 3 (days 40000) (\<lambda>_. 0)) (\<lambda>_. RequestFailed) =
        (None, (net_next ^^ 30) (\<lambda>_. RequestFailed))" by simp
  ultimately show ?thesis by simp
qed

text \<open>
  C8 (as amended). Called with one of the methods GET, POST, PUT and DELETE,
  \<open>call_api\<close> of \<open>scripts/generate_patients.py\<close> sends one request and returns the
  parsed body of a 2xx response, the marker \<open>{"success": True}\<close> for a 2xx response
  whose body is not JSON, and None for every other response and for an exception of the
  request. \<open>generate_patients\<close> of that script sends one request for each of the
  \<open>count\<close> candidates, keeps every truthy answer, and counts one error for every
  falsy answer and one for every kept answer that is not a JSON object (the message
  printed after the append calls \<open>response.get\<close>). Called with one of these methods
  in any letter case, \<open>call_api\<close> of the single-file generator sends one request and
  returns None for a status from 400 to 599, for status 204 and for an exception of the
  request, and the parsed body of every other response with a JSON body; its
  \<open>generate_patients\<close> sends one request for each candidate and keeps exactly the
  truthy answers; it keeps no error count.
\<close>

theorem call_api_classification:
  "(method \<in> set [''GET'', ''POST'', ''PUT'', ''DELETE''] \<longrightarrow>
      snd (call_api method net) = net_next net \<and>
      (\<forall>s j. net 0 = Response s (Some j) \<and> 200 \<le> s \<and> s < 300 \<longrightarrow>
             fst (call_api method net) = j) \<and>
      (\<forall>s. net 0 = Response s None \<and> 200 \<le> s \<and> s < 300 \<longrightarrow>
             fst (call_api method net) = bare_success) \<and>
      (\<forall>s b. net 0 = Response s b \<and> \<not> (200 \<le> s \<and> s < 300) \<longrightarrow>
             fst (call_api method net) = JNull) \<and>
      (net 0 = RequestFailed \<longrightarrow> fst (call_api method net) = JNull))
   \<and> (\<forall>st g' net'. generate_patients count now g net = (st, g', net') \<longrightarrow>
        net' = (net_next ^^ count) net \<and> length (ps_submitted st) = count \<and>
        ps_patients st = filter truthy (answers count net) \<and>
        ps_error_count st =
          length (filter (\<lambda>r. \<not> (truthy r \<and> has_get r)) (answers count net)))
   \<and> (upper method \<in> set [''GET'', ''POST'', ''PUT'', ''DELETE''] \<longrightarrow>
        snd (m_call_api jc method net) = net_next net \<and>
        (\<forall>s b. net 0 = Response s b \<and> 400 \<le> s \<and> s < 600 \<longrightarrow>
               fst (m_call_api jc method net) = Inr JNull) \<and>
        (\<forall>b. net 0 = Response 204 b \<longrightarrow> fst (m_call_api jc method net) = Inr JNull) \<and>
        (\<forall>s j. net 0 = Response s (Some j) \<and> \<not> (400 \<le> s \<and> s < 600) \<and> s \<noteq> 204 \<longrightarrow>
               fst (m_call_api jc method net) = Inr j) \<and>
        (net 0 = RequestFailed \<longrightarrow> fst (m_call_api jc method net) = Inr JNull))
   \<and> (\<forall>st g' net'. m_generate_patients jc count now g net = Inr (st, g', net') \<longrightarrow>
        net' = (net_next ^^ count) net \<and> length (snd st) = count \<and>
        fst st = filter truthy (m_answers jc count net))"
proof (intro conjI)
  show "method \<in> set [''GET'', ''POST'', ''PUT'', ''DELETE''] \<longrightarrow>
      snd (call_api method net) = net_next net \<and>
      (\<forall>s j. net 0 = Response s (Some j) \<and> 200 \<le> s \<and> s < 300 \<longrightarrow>
             fst (call_api method net) = j) \<and>
      (\<forall>s. net 0 = Response s None \<and> 200 \<le> s \<and> s < 300 \<longrightarrow>
             fst (call_api method net) = bare_success) \<and>
      (\<forall>s b. net 0 = Response s b \<and> \<not> (200 \<le> s \<and> s < 300) \<longrightarrow>
             fst (call_api method net) = JNull) \<and>
      (net 0 = RequestFailed \<longrightarrow> fst (call_api method net) = JNull)"
    using call_api_supported[of "method" "net"] by auto
next
  show "\<forall>st g' net'. generate_patients count now g net = (st, g', net') \<longrightarrow>
        net' = (net_next ^^ count) net \<and> length (ps_submitted st) = count \<and>
        ps_patients st = filter truthy (answers count net) \<and>
        ps_error_count st =
          length (filter (\<lambda>r. \<not> (truthy r \<and> has_get r)) (answers count net))"
  proof (intro allI impI)
    fix st g' net'
    assume "generate_patients count now g net = (st, g', net')"
    then have "generate_patients_loop count now
       \<lparr>ps_patients = [], ps_error_count = 0, ps_submitted = []\<rparr> g net = (st, g', net')"
      by (simp add: generate_patients_def)
    from generate_patients_loop_props[OF this]
    show "net' = (net_next ^^ count) net \<and> length (ps_submitted st) = count \<and>
        ps_patients st = filter truthy (answers count net) \<and>
        ps_error_count st =
          length (filter (\<lambda>r. \<not> (truthy r \<and> has_get r)) (answers count net))"
      by auto
  qed
next
  show "upper method \<in> set [''GET'', ''POST'', ''PUT'', ''DELETE''] \<longrightarrow>
        snd (m_call_api jc method net) = net_next net \<and>
        (\<forall>s b. net 0 = Response s b \<and> 400 \<le> s \<and> s < 600 \<longrightarrow>
               fst (m_call_api jc method net) = Inr JNull) \<and>
        (\<forall>b. net 0 = Response 204 b \<longrightarrow> fst (m_call_api jc method net) = Inr JNull) \<and>
        (\<forall>s j. net 0 = Response s (Some j) \<and> \<not> (400 \<le> s \<and> s < 600) \<and> s \<noteq> 204 \<longrightarrow>
               fst (m_call_api jc method net) = Inr j) \<and>
        (net 0 = RequestFailed \<longrightarrow> fst (m_call_api jc method net) = Inr JNull)"
    using m_call_api_supported[of "method" "jc" "net"] by auto
next
  show "\<forall>st g' net'. m_generate_patients jc count now g net = Inr (st, g', net') \<longrightarrow>
        net' = (net_next ^^ count) net \<and> length (snd st) = count \<and>
        fst st = filter truthy (m_answers jc count net)"
  proof (intro allI impI)
    fix st g' net'
    assume "m_generate_patients jc count now g net = Inr (st, g', net')"
    then have "m_generate_patients_loop jc count now ([], []) g net = Inr (st, g', net')"
      by (simp add: m_generate_patients_def)
    from m_generate_patients_loop_props[OF this]
    show "net' = (net_next ^^ count) net \<and> length (snd st) = count \<and>
        fst st = filter truthy (m_answers jc count net)"
      by auto
  qed
qed

theorem call_api_classification_witness:
  "(let st = fst (generate_patients (Suc (Suc (Suc (Suc 0)))) (days 40000) (\<lambda>_. 0)
                 (nth [Response 201 (Some (JObj [(''patientId'', JNum 1)])),
                       Response 200 None, Response 500 None, RequestFailed]))
    in (ps_patients st, ps_error_count st, length (ps_submitted st)))
   = ([JObj [(''patientId'', JNum 1)], JObj [(''success'', JBool True)]], 2, 4)
   \<and> map_sum id (fst \<circ> fst)
        (m_generate_patients True (Suc (Suc (Suc (Suc 0)))) (days 40000) (\<lambda>_. 0)
           (nth [Response 201 (Some (JObj [(''patientId'', JNum 1)])),
                 Response 200 None, Response 500 None, RequestFailed]))
     = Inr [JObj [(''patientId'', JNum 1)]]"
proof -
  let ?N = "nth [Response 201 (Some (JObj [(''patientId'', JNum 1)])),
                 Response 200 None, Response 500 None, RequestFailed]"
  let ?n = "Suc (Suc (Suc (Suc 0)))"
  have a: "answers ?n ?N = [JObj [(''patientId'', JNum 1)], bare_success, JNull, JNull]"
    by (simp add: call_api_def net_next_def)
  have b: "m_answers True ?n ?N = [JObj [(''patientId'', JNum 1)], JNull, JNull, JNull]"
    by (simp add: m_call_api_def upper_POST net_next_def)
  obtain st g' net' where s: "generate_patients ?n (days 40000) (\<lambda>_. 0) ?N = (st, g', net')"
    by (cases "generate_patients ?n (days 40000) (\<lambda>_. 0) ?N")
  from m_generate_patients_loop_total[of ?n "days 40000" "([], [])" "\<lambda>_. 0" ?N]
  obtain mst mg mnet where
    m: "m_generate_patients True ?n (days 40000) (\<lambda>_. 0) ?N = Inr (mst, mg, mnet)"
    by (auto simp: m_generate_patients_def)
  from call_api_classification[of "''POST''" ?N ?n "days 40000" "\<lambda>_. 0" True] s m a b
  have "ps_patients st = [JObj [(''patientId'', JNum 1)], bare_success]"
       "ps_error_count st = 2" "length (ps_submitted st) = 4"
       "fst mst = [JObj [(''patientId'', JNum 1)]]"
    by (simp_all add: bare_success_def has_get_def)
  with s m show ?thesis by (simp add: bare_success_def)
qed

text \<open>
  The claim as stated fails on \<open>call_api\<close> of the single-file generator: a 2xx
  response without a JSON body (status 204) gives None, not a success marker, and a
  response that is not 2xx gives its parsed body when the status is below 400.
\<close>

theorem monolith_call_api_counterexample:
  "fst (m_call_api True ''POST'' (\<lambda>_. Response 204 None)) = Inr JNull
   \<and> fst (m_call_api False ''POST'' (\<lambda>_. Response 204 None)) = Inr JNull
   \<and> fst (m_call_api True ''POST'' (\<lambda>_. Response 304 (Some (JObj [(''patientId'', JNum 1)]))))
       = Inr (JObj [(''patientId'', JNum 1)])"
  by (simp add: m_call_api_def upper_POST)

end
